theory Spec2Isabelle
  imports Complex_Main
begin

section \<open>Network Performance Optimizer: the scorer, the stream-profile selector, the optimizer\<close>

text \<open>
  A shallow embedding of \<^verbatim>\<open>api/index.py\<close>, in two readings of its arithmetic. The first
  reads Python's \<^verbatim>\<open>float\<close> as \<^typ>\<open>real\<close>: all arithmetic is exact, and rounding,
  overflow, underflow, infinities and NaN do not occur. The second (the section on IEEE double
  arithmetic) reads it as the interpreter computes it, in binary64. A property that holds only
  in the exact reading says so, and what the program does instead in doubles is stated with it.
  Python exceptions are values of a sum type.
  A number that the source renders with \<^verbatim>\<open>f"{x:.1f}..."\<close> is kept as the number \<open>x\<close>
  that is rendered; the rendering to one decimal and the unit suffix are not modelled.
\<close>

subsection \<open>Data model\<close>

record NetworkConditions =
  bandwidth :: real
  throughput :: real
  packet_loss :: real
  latency :: real
  jitter :: real

record NetworkAnalysis =
  network_score :: real
  congestion_level :: string
  performance_rating :: string
  recommendations :: "string list"

text \<open>The dictionary returned by \<^verbatim>\<open>get_video_recommendations\<close>; \<open>bitrate\<close> is the number
  rendered into the string \<^verbatim>\<open>"<x> Mbps"\<close>.\<close>

record VideoRec =
  resolution :: string
  fps :: int
  bitrate :: real
  codec :: string
  streaming_quality :: string

datatype py_error = ValidationError | ZeroDivisionError | ValueError

text \<open>\<^verbatim>\<open>except Exception as e: raise HTTPException(status_code=500, detail=str(e))\<close>:
  the status code and the exception whose text is the detail.\<close>

datatype http_error = HTTPException nat py_error

text \<open>The \<^verbatim>\<open>Field\<close> constraints of \<^verbatim>\<open>NetworkConditions\<close>:
  \<^verbatim>\<open>gt=0\<close>; \<^verbatim>\<open>ge=0, le=1\<close>; \<^verbatim>\<open>ge=0, le=100\<close>; \<^verbatim>\<open>ge=0\<close>; \<^verbatim>\<open>ge=0\<close>.\<close>

definition valid_conditions :: "NetworkConditions \<Rightarrow> bool" where
  "valid_conditions c \<longleftrightarrow>
     bandwidth c > 0 \<and>
     throughput c \<ge> 0 \<and> throughput c \<le> 1 \<and>
     packet_loss c \<ge> 0 \<and> packet_loss c \<le> 100 \<and>
     latency c \<ge> 0 \<and>
     jitter c \<ge> 0"

text \<open>Constructing a \<^verbatim>\<open>NetworkConditions(**d)\<close> validates the fields and raises otherwise.\<close>

definition NetworkConditions_init :: "NetworkConditions \<Rightarrow> py_error + NetworkConditions" where
  "NetworkConditions_init d = (if valid_conditions d then Inr d else Inl ValidationError)"

subsection \<open>Scorer\<close>

definition analyze_network :: "NetworkConditions \<Rightarrow> NetworkAnalysis" where
  "analyze_network conditions =
    (let score = 100;
         score = score - packet_loss conditions * 2;
         score = score - latency conditions * 0.5;
         score = score - jitter conditions * 5;
         score = score + throughput conditions * 20;
         score = score + min (bandwidth conditions * 5) 30;
         score = max 0 (min 100 score);
         congestion =
           (if score \<ge> 80 then ''Low''
            else if score \<ge> 60 then ''Moderate''
            else if score \<ge> 40 then ''High''
            else ''Severe'');
         rating =
           (if score \<ge> 90 then ''Excellent''
            else if score \<ge> 75 then ''Good''
            else if score \<ge> 60 then ''Fair''
            else if score \<ge> 40 then ''Poor''
            else ''Critical'');
         recommendations = [];
         recommendations =
           (if packet_loss conditions > 5
            then recommendations @ [''High packet loss detected. Consider checking network hardware or ISP service.'']
            else recommendations);
         recommendations =
           (if latency conditions > 100
            then recommendations @ [''High latency detected. Consider using a closer server or check network routing.'']
            else recommendations);
         recommendations =
           (if jitter conditions > 30
            then recommendations @ [''High jitter detected. QoS settings adjustment recommended.'']
            else recommendations);
         recommendations =
           (if throughput conditions < 0.3
            then recommendations @ [''Low throughput detected. Bandwidth upgrade or traffic optimization recommended.'']
            else recommendations)
     in \<lparr>network_score = score,
         congestion_level = congestion,
         performance_rating = rating,
         recommendations = recommendations\<rparr>)"

subsection \<open>Stream-profile selector\<close>

definition get_video_recommendations :: "NetworkConditions \<Rightarrow> real \<Rightarrow> VideoRec" where
  "get_video_recommendations conditions score =
    (if score \<ge> 80 then
       \<lparr>resolution = ''4K (2160p)'', fps = 60,
        bitrate = min (bandwidth conditions * 0.8) 35,
        codec = ''H.265/HEVC'', streaming_quality = ''Ultra High''\<rparr>
     else if score \<ge> 60 then
       \<lparr>resolution = ''1080p'', fps = 30,
        bitrate = min (bandwidth conditions * 0.7) 15,
        codec = ''H.264/AVC'', streaming_quality = ''High''\<rparr>
     else if score \<ge> 40 then
       \<lparr>resolution = ''720p'', fps = 30,
        bitrate = min (bandwidth conditions * 0.6) 8,
        codec = ''H.264/AVC'', streaming_quality = ''Medium''\<rparr>
     else
       \<lparr>resolution = ''480p'', fps = 24,
        bitrate = min (bandwidth conditions * 0.5) 4,
        codec = ''H.264/AVC'', streaming_quality = ''Low''\<rparr>)"

text \<open>The order of quality of the two bands, worst first: Severe, High, Moderate, Low for the
  congestion level; Critical, Poor, Fair, Good, Excellent for the performance rating.\<close>

definition congestion_quality :: "string \<Rightarrow> nat" where
  "congestion_quality s =
     (if s = ''Low'' then 3 else if s = ''Moderate'' then 2 else if s = ''High'' then 1 else 0)"

definition rating_quality :: "string \<Rightarrow> nat" where
  "rating_quality s =
     (if s = ''Excellent'' then 4 else if s = ''Good'' then 3 else if s = ''Fair'' then 2
      else if s = ''Poor'' then 1 else 0)"

subsection \<open>Library functions the endpoints call\<close>

text \<open>Python's true division of floats raises on a zero divisor.\<close>

definition py_truediv :: "real \<Rightarrow> real \<Rightarrow> py_error + real" where
  "py_truediv a b = (if b = 0 then Inl ZeroDivisionError else Inr (a / b))"

text \<open>\<^verbatim>\<open>numpy.linspace(start, stop, num)\<close> with its default \<^verbatim>\<open>endpoint=True\<close>, in exact
  arithmetic: \<^verbatim>\<open>step = (stop - start) / (num - 1)\<close>, \<^verbatim>\<open>y = arange(num) * step + start\<close>,
  and the last element is then overwritten by \<^verbatim>\<open>stop\<close>. (numpy's separate branch for
  \<^verbatim>\<open>step == 0\<close> gives the same numbers in exact arithmetic; in doubles it does not, see
  \<open>linspace_fp\<close> below.)\<close>

definition linspace :: "real \<Rightarrow> real \<Rightarrow> nat \<Rightarrow> real list" where
  "linspace start stop num =
     (let dv = num - 1;
          delta = stop - start;
          step = delta / real dv;
          y = map (\<lambda>i. real i * step + start) [0..<num]
      in if num > 1 then y[num - 1 := stop] else y)"

text \<open>Python's \<^verbatim>\<open>max(iterable, key=f)\<close>: the running maximum is replaced only by an item
  whose key is strictly greater, so the first of several maximal items is returned; an empty
  iterable raises \<^verbatim>\<open>ValueError\<close>.\<close>

fun max_from :: "('a \<Rightarrow> real) \<Rightarrow> 'a \<Rightarrow> 'a list \<Rightarrow> 'a" where
  "max_from key best [] = best"
| "max_from key best (x # xs) = max_from key (if key x > key best then x else best) xs"

definition py_max :: "('a \<Rightarrow> real) \<Rightarrow> 'a list \<Rightarrow> py_error + 'a" where
  "py_max key xs = (case xs of [] \<Rightarrow> Inl ValueError | x # rest \<Rightarrow> Inr (max_from key x rest))"

subsection \<open>The analyze endpoint\<close>

record AnalyzeOptimization =
  current_bandwidth :: real
  recommended_bandwidth :: real
  potential_improvement :: real

record AnalyzeResponse =
  timestamp :: string
  input_conditions :: NetworkConditions
  analysis_results :: NetworkAnalysis
  optimization :: AnalyzeOptimization
  video_streaming :: VideoRec
  status :: string

text \<open>\<open>now\<close> stands for \<^verbatim>\<open>datetime.now().isoformat()\<close>, read from the environment.\<close>

definition analyze_network_conditions :: "string \<Rightarrow> NetworkConditions \<Rightarrow> http_error + AnalyzeResponse" where
  "analyze_network_conditions now conditions =
    (let analysis = analyze_network conditions;
         video_rec = get_video_recommendations conditions (network_score analysis);
         current_throughput = throughput conditions;
         optimal_bandwidth = bandwidth conditions;
         optimal_bandwidth =
           (if network_score analysis < 60 then bandwidth conditions * 1.5 else optimal_bandwidth)
     in case py_truediv optimal_bandwidth (bandwidth conditions) of
          Inl e \<Rightarrow> Inl (HTTPException 500 e)
        | Inr q \<Rightarrow>
            Inr \<lparr>timestamp = now,
                 input_conditions = conditions,
                 analysis_results = analysis,
                 optimization =
                   \<lparr>current_bandwidth = bandwidth conditions,
                    recommended_bandwidth = optimal_bandwidth,
                    potential_improvement = min ((q - 1) * 100) 100\<rparr>,
                 video_streaming = video_rec,
                 status = ''success''\<rparr>)"

subsection \<open>The optimize endpoint\<close>

record OptimizationStep =
  step_bandwidth :: real
  predicted_score :: real
  step_congestion_level :: string
  video_quality :: VideoRec

record CurrentConditions =
  cur_bandwidth :: real
  cur_throughput :: real
  cur_packet_loss :: real
  cur_latency :: real
  cur_jitter :: real
  current_congestion :: real
  current_score :: real

record PerformanceMetrics =
  bandwidth_improvement :: real
  quality_improvement :: real
  network_efficiency :: real

record OptimalConfiguration =
  opt_bandwidth :: real
  opt_predicted_score :: real
  predicted_congestion :: string
  congestion_reduction :: real
  opt_video_quality :: VideoRec
  performance_metrics :: PerformanceMetrics

record OptimizeResponse =
  opt_timestamp :: string
  current_conditions :: CurrentConditions
  optimal_configuration :: OptimalConfiguration
  step_by_step_optimization :: "OptimizationStep list"
  opt_recommendations :: "string list"
  opt_status :: string

text \<open>The body of \<^verbatim>\<open>for bw in steps\<close>: the conditions with the bandwidth replaced are
  constructed (and validated) twice, scored, profiled, and the step is appended.\<close>

fun optimization_loop ::
  "NetworkConditions \<Rightarrow> real list \<Rightarrow> OptimizationStep list \<Rightarrow> py_error + OptimizationStep list" where
  "optimization_loop conditions [] optimization_steps = Inr optimization_steps"
| "optimization_loop conditions (bw # bws) optimization_steps =
    (let test_conditions = conditions\<lparr>bandwidth := bw\<rparr>
     in case NetworkConditions_init test_conditions of
          Inl e \<Rightarrow> Inl e
        | Inr tc \<Rightarrow>
            (let test_analysis = analyze_network tc
             in case NetworkConditions_init test_conditions of
                  Inl e \<Rightarrow> Inl e
                | Inr tc' \<Rightarrow>
                    (let video_rec = get_video_recommendations tc' (network_score test_analysis)
                     in optimization_loop conditions bws
                          (optimization_steps @
                             [\<lparr>step_bandwidth = bw,
                               predicted_score = network_score test_analysis,
                               step_congestion_level = congestion_level test_analysis,
                               video_quality = video_rec\<rparr>]))))"

text \<open>The endpoint in exact arithmetic; \<open>optimize_network_fp\<close> below is the same function in
  doubles, where \<open>bandwidth * 0.5\<close> can underflow to zero and \<open>bandwidth * 2.0\<close> can overflow.\<close>

definition optimize_network :: "string \<Rightarrow> NetworkConditions \<Rightarrow> http_error + OptimizeResponse" where
  "optimize_network now conditions =
    (let analysis = analyze_network conditions;
         min_bw = bandwidth conditions * 0.5;
         max_bw = bandwidth conditions * 2.0;
         steps = linspace min_bw max_bw 10
     in case optimization_loop conditions steps [] of
          Inl e \<Rightarrow> Inl (HTTPException 500 e)
        | Inr optimization_steps \<Rightarrow>
           (case py_max predicted_score optimization_steps of
              Inl e \<Rightarrow> Inl (HTTPException 500 e)
            | Inr optimal_step \<Rightarrow>
               (let initial_congestion = 100 - network_score analysis;
                    optimal_congestion = 100 - predicted_score optimal_step;
                    congestion_reduction = initial_congestion - optimal_congestion
                in case py_truediv (step_bandwidth optimal_step) (bandwidth conditions) of
                     Inl e \<Rightarrow> Inl (HTTPException 500 e)
                   | Inr bw_ratio \<Rightarrow>
                      (case py_truediv (predicted_score optimal_step) (step_bandwidth optimal_step) of
                         Inl e \<Rightarrow> Inl (HTTPException 500 e)
                       | Inr efficiency \<Rightarrow>
                          Inr \<lparr>opt_timestamp = now,
                               current_conditions =
                                 \<lparr>cur_bandwidth = bandwidth conditions,
                                  cur_throughput = throughput conditions,
                                  cur_packet_loss = packet_loss conditions,
                                  cur_latency = latency conditions,
                                  cur_jitter = jitter conditions,
                                  current_congestion = initial_congestion,
                                  current_score = network_score analysis\<rparr>,
                               optimal_configuration =
                                 \<lparr>opt_bandwidth = step_bandwidth optimal_step,
                                  opt_predicted_score = predicted_score optimal_step,
                                  predicted_congestion = step_congestion_level optimal_step,
                                  congestion_reduction = congestion_reduction,
                                  opt_video_quality = video_quality optimal_step,
                                  performance_metrics =
                                    \<lparr>bandwidth_improvement = (bw_ratio - 1) * 100,
                                     quality_improvement =
                                       predicted_score optimal_step - network_score analysis,
                                     network_efficiency = efficiency\<rparr>\<rparr>,
                               step_by_step_optimization = optimization_steps,
                               opt_recommendations = recommendations analysis,
                               opt_status = ''success''\<rparr>))))"

section \<open>The same program in IEEE double arithmetic\<close>

text \<open>
  The definitions above read the arithmetic of the source as exact. The ones of this section
  read it as Python and numpy compute it, in IEEE 754 binary64 with rounding to nearest, ties
  to even: every operation returns the double nearest to the exact result, a result beyond the
  largest double is an infinity, and a result below half the smallest positive double is zero.
  The sign of a zero is not kept: it shows only in the rendering of a number and in the sign of
  a quotient by zero, and Python raises on a zero divisor.
\<close>

subsection \<open>Doubles\<close>

datatype double = Finite real | PosInf | NegInf | NaN

definition pow2 :: "int \<Rightarrow> real" where
  "pow2 e = (if 0 \<le> e then 2 ^ nat e else 1 / 2 ^ nat (- e))"

text \<open>The nearest integer, the even one of two nearest.\<close>

definition round_half_even :: "real \<Rightarrow> int" where
  "round_half_even q =
     (let n = \<lfloor>q\<rfloor>; f = q - of_int n
      in if f < 1/2 then n else if f > 1/2 then n + 1 else if even n then n else n + 1)"

text \<open>The exponent of the binade of \<open>a > 0\<close>: the least \<open>e\<close> from \<open>e0\<close> upwards with
  \<open>a < 2 ^ (e + 1)\<close>, at most 1024.\<close>

function find_exp :: "real \<Rightarrow> int \<Rightarrow> int" where
  "find_exp a e = (if a < pow2 (e + 1) \<or> 1024 \<le> e then e else find_exp a (e + 1))"
  by pat_completeness auto
termination
  by (relation "measure (\<lambda>(a, e). nat (1024 - e))") auto

declare find_exp.simps [simp del]

text \<open>The double nearest to a real. In the binade of exponent \<open>e\<close> (at least -1022, the
  subnormal numbers sharing the spacing of the lowest binade) the doubles are the multiples of
  \<open>2 ^ (e - 52)\<close>; a value that rounds to \<open>2 ^ 1024\<close> or beyond overflows.\<close>

definition round_double :: "real \<Rightarrow> double" where
  "round_double x =
     (if x = 0 then Finite 0
      else let a = \<bar>x\<bar>;
               e = find_exp a (- 1022);
               ulp = pow2 (e - 52);
               y = of_int (round_half_even (a / ulp)) * ulp
           in if pow2 1024 \<le> y then (if 0 < x then PosInf else NegInf)
              else Finite (if 0 < x then y else - y))"

text \<open>The smallest positive double, \<^verbatim>\<open>5e-324\<close>.\<close>

definition denorm_min :: real where
  "denorm_min = pow2 (- 1074)"

fun fp_neg :: "double \<Rightarrow> double" where
  "fp_neg (Finite a) = Finite (- a)"
| "fp_neg PosInf = NegInf"
| "fp_neg NegInf = PosInf"
| "fp_neg NaN = NaN"

fun fp_add :: "double \<Rightarrow> double \<Rightarrow> double" where
  "fp_add (Finite a) (Finite b) = round_double (a + b)"
| "fp_add NaN _ = NaN"
| "fp_add _ NaN = NaN"
| "fp_add PosInf NegInf = NaN"
| "fp_add NegInf PosInf = NaN"
| "fp_add PosInf _ = PosInf"
| "fp_add _ PosInf = PosInf"
| "fp_add NegInf _ = NegInf"
| "fp_add _ NegInf = NegInf"

definition fp_sub :: "double \<Rightarrow> double \<Rightarrow> double" where
  "fp_sub x y = fp_add x (fp_neg y)"

fun fp_mul :: "double \<Rightarrow> double \<Rightarrow> double" where
  "fp_mul (Finite a) (Finite b) = round_double (a * b)"
| "fp_mul NaN _ = NaN"
| "fp_mul _ NaN = NaN"
| "fp_mul (Finite a) PosInf = (if a = 0 then NaN else if 0 < a then PosInf else NegInf)"
| "fp_mul (Finite a) NegInf = (if a = 0 then NaN else if 0 < a then NegInf else PosInf)"
| "fp_mul PosInf (Finite b) = (if b = 0 then NaN else if 0 < b then PosInf else NegInf)"
| "fp_mul NegInf (Finite b) = (if b = 0 then NaN else if 0 < b then NegInf else PosInf)"
| "fp_mul PosInf PosInf = PosInf"
| "fp_mul NegInf NegInf = PosInf"
| "fp_mul PosInf NegInf = NegInf"
| "fp_mul NegInf PosInf = NegInf"

text \<open>IEEE division, as numpy divides. The program divides this way only by the literal 9.\<close>

fun fp_div :: "double \<Rightarrow> double \<Rightarrow> double" where
  "fp_div (Finite a) (Finite b) =
     (if b = 0 then (if a = 0 then NaN else if 0 < a then PosInf else NegInf)
      else round_double (a / b))"
| "fp_div NaN _ = NaN"
| "fp_div _ NaN = NaN"
| "fp_div (Finite a) PosInf = Finite 0"
| "fp_div (Finite a) NegInf = Finite 0"
| "fp_div PosInf (Finite b) = (if 0 \<le> b then PosInf else NegInf)"
| "fp_div NegInf (Finite b) = (if 0 \<le> b then NegInf else PosInf)"
| "fp_div PosInf PosInf = NaN"
| "fp_div PosInf NegInf = NaN"
| "fp_div NegInf PosInf = NaN"
| "fp_div NegInf NegInf = NaN"

text \<open>Comparisons: every comparison with NaN is false.\<close>

fun fp_less :: "double \<Rightarrow> double \<Rightarrow> bool" where
  "fp_less (Finite a) (Finite b) = (a < b)"
| "fp_less NaN _ = False"
| "fp_less _ NaN = False"
| "fp_less PosInf _ = False"
| "fp_less _ NegInf = False"
| "fp_less NegInf _ = True"
| "fp_less _ PosInf = True"

definition fp_le :: "double \<Rightarrow> double \<Rightarrow> bool" where
  "fp_le x y \<longleftrightarrow> fp_less x y \<or> (x = y \<and> x \<noteq> NaN)"

text \<open>Python's \<^verbatim>\<open>min(a, b)\<close> and \<^verbatim>\<open>max(a, b)\<close>: the first argument, unless the second is
  strictly less (strictly greater).\<close>

definition py_min_fp :: "double \<Rightarrow> double \<Rightarrow> double" where
  "py_min_fp a b = (if fp_less b a then b else a)"

definition py_max_fp :: "double \<Rightarrow> double \<Rightarrow> double" where
  "py_max_fp a b = (if fp_less a b then b else a)"

text \<open>Python's \<^verbatim>\<open>a / b\<close> on floats.\<close>

definition py_truediv_fp :: "double \<Rightarrow> double \<Rightarrow> py_error + double" where
  "py_truediv_fp a b = (if b = Finite 0 then Inl ZeroDivisionError else Inr (fp_div a b))"

subsection \<open>Data model, scorer and selector in doubles\<close>

record NetworkConditions_fp =
  fp_bandwidth :: double
  fp_throughput :: double
  fp_packet_loss :: double
  fp_latency :: double
  fp_jitter :: double

record NetworkAnalysis_fp =
  fp_network_score :: double
  fp_congestion_level :: string
  fp_performance_rating :: string
  fp_recommendations :: "string list"

record VideoRec_fp =
  fp_resolution :: string
  fp_fps :: int
  fp_bitrate :: double
  fp_codec :: string
  fp_streaming_quality :: string

text \<open>The \<^verbatim>\<open>Field\<close> constraints on doubles: an infinite bandwidth, latency or jitter passes
  them, a NaN passes none.\<close>

definition valid_conditions_fp :: "NetworkConditions_fp \<Rightarrow> bool" where
  "valid_conditions_fp c \<longleftrightarrow>
     fp_less (Finite 0) (fp_bandwidth c) \<and>
     fp_le (Finite 0) (fp_throughput c) \<and> fp_le (fp_throughput c) (Finite 1) \<and>
     fp_le (Finite 0) (fp_packet_loss c) \<and> fp_le (fp_packet_loss c) (Finite 100) \<and>
     fp_le (Finite 0) (fp_latency c) \<and>
     fp_le (Finite 0) (fp_jitter c)"

definition NetworkConditions_init_fp ::
  "NetworkConditions_fp \<Rightarrow> py_error + NetworkConditions_fp" where
  "NetworkConditions_init_fp d = (if valid_conditions_fp d then Inr d else Inl ValidationError)"

text \<open>The literals 2, 0.5, 5, 20, 30, 100 and the thresholds are doubles themselves; 0.3 (and
  0.8, 0.7, 0.6 below) is the double nearest to it.\<close>

definition analyze_network_fp :: "NetworkConditions_fp \<Rightarrow> NetworkAnalysis_fp" where
  "analyze_network_fp conditions =
    (let score = Finite 100;
         score = fp_sub score (fp_mul (fp_packet_loss conditions) (Finite 2));
         score = fp_sub score (fp_mul (fp_latency conditions) (Finite 0.5));
         score = fp_sub score (fp_mul (fp_jitter conditions) (Finite 5));
         score = fp_add score (fp_mul (fp_throughput conditions) (Finite 20));
         score = fp_add score (py_min_fp (fp_mul (fp_bandwidth conditions) (Finite 5)) (Finite 30));
         score = py_max_fp (Finite 0) (py_min_fp (Finite 100) score);
         congestion =
           (if fp_le (Finite 80) score then ''Low''
            else if fp_le (Finite 60) score then ''Moderate''
            else if fp_le (Finite 40) score then ''High''
            else ''Severe'');
         rating =
           (if fp_le (Finite 90) score then ''Excellent''
            else if fp_le (Finite 75) score then ''Good''
            else if fp_le (Finite 60) score then ''Fair''
            else if fp_le (Finite 40) score then ''Poor''
            else ''Critical'');
         recommendations = [];
         recommendations =
           (if fp_less (Finite 5) (fp_packet_loss conditions)
            then recommendations @ [''High packet loss detected. Consider checking network hardware or ISP service.'']
            else recommendations);
         recommendations =
           (if fp_less (Finite 100) (fp_latency conditions)
            then recommendations @ [''High latency detected. Consider using a closer server or check network routing.'']
            else recommendations);
         recommendations =
           (if fp_less (Finite 30) (fp_jitter conditions)
            then recommendations @ [''High jitter detected. QoS settings adjustment recommended.'']
            else recommendations);
         recommendations =
           (if fp_less (fp_throughput conditions) (round_double 0.3)
            then recommendations @ [''Low throughput detected. Bandwidth upgrade or traffic optimization recommended.'']
            else recommendations)
     in \<lparr>fp_network_score = score,
         fp_congestion_level = congestion,
         fp_performance_rating = rating,
         fp_recommendations = recommendations\<rparr>)"

definition get_video_recommendations_fp :: "NetworkConditions_fp \<Rightarrow> double \<Rightarrow> VideoRec_fp" where
  "get_video_recommendations_fp conditions score =
    (if fp_le (Finite 80) score then
       \<lparr>fp_resolution = ''4K (2160p)'', fp_fps = 60,
        fp_bitrate = py_min_fp (fp_mul (fp_bandwidth conditions) (round_double 0.8)) (Finite 35),
        fp_codec = ''H.265/HEVC'', fp_streaming_quality = ''Ultra High''\<rparr>
     else if fp_le (Finite 60) score then
       \<lparr>fp_resolution = ''1080p'', fp_fps = 30,
        fp_bitrate = py_min_fp (fp_mul (fp_bandwidth conditions) (round_double 0.7)) (Finite 15),
        fp_codec = ''H.264/AVC'', fp_streaming_quality = ''High''\<rparr>
     else if fp_le (Finite 40) score then
       \<lparr>fp_resolution = ''720p'', fp_fps = 30,
        fp_bitrate = py_min_fp (fp_mul (fp_bandwidth conditions) (round_double 0.6)) (Finite 8),
        fp_codec = ''H.264/AVC'', fp_streaming_quality = ''Medium''\<rparr>
     else
       \<lparr>fp_resolution = ''480p'', fp_fps = 24,
        fp_bitrate = py_min_fp (fp_mul (fp_bandwidth conditions) (Finite 0.5)) (Finite 4),
        fp_codec = ''H.264/AVC'', fp_streaming_quality = ''Low''\<rparr>)"

subsection \<open>The optimize endpoint in doubles\<close>

text \<open>\<^verbatim>\<open>numpy.linspace(start, stop, num)\<close> on doubles, operation by operation:
  \<^verbatim>\<open>delta = stop - start\<close>; \<^verbatim>\<open>y = arange(0, num)\<close>; for \<^verbatim>\<open>div = num - 1 > 0\<close>,
  \<^verbatim>\<open>step = delta / div\<close> and then \<^verbatim>\<open>y = y * step\<close>, or, when \<^verbatim>\<open>step == 0\<close>,
  \<^verbatim>\<open>y = (y / div) * delta\<close>; otherwise \<^verbatim>\<open>y = y * delta\<close>; then \<^verbatim>\<open>y = y + start\<close>, and
  the last element is overwritten by \<^verbatim>\<open>stop\<close>.\<close>

definition linspace_fp :: "double \<Rightarrow> double \<Rightarrow> nat \<Rightarrow> double list" where
  "linspace_fp start stop num =
     (let dv = num - 1;
          delta = fp_sub stop start;
          y = map (\<lambda>i. Finite (real i)) [0..<num];
          y = (if dv > 0
               then (let step = fp_div delta (Finite (real dv))
                     in if step = Finite 0
                        then map (\<lambda>v. fp_mul (fp_div v (Finite (real dv))) delta) y
                        else map (\<lambda>v. fp_mul v step) y)
               else map (\<lambda>v. fp_mul v delta) y);
          y = map (\<lambda>v. fp_add v start) y
      in if num > 1 then y[num - 1 := stop] else y)"

fun max_from_fp :: "('a \<Rightarrow> double) \<Rightarrow> 'a \<Rightarrow> 'a list \<Rightarrow> 'a" where
  "max_from_fp key best [] = best"
| "max_from_fp key best (x # xs) =
     max_from_fp key (if fp_less (key best) (key x) then x else best) xs"

definition py_max_by_fp :: "('a \<Rightarrow> double) \<Rightarrow> 'a list \<Rightarrow> py_error + 'a" where
  "py_max_by_fp key xs =
     (case xs of [] \<Rightarrow> Inl ValueError | x # rest \<Rightarrow> Inr (max_from_fp key x rest))"

record OptimizationStep_fp =
  fp_step_bandwidth :: double
  fp_predicted_score :: double
  fp_step_congestion_level :: string
  fp_video_quality :: VideoRec_fp

record CurrentConditions_fp =
  fp_cur_bandwidth :: double
  fp_cur_throughput :: double
  fp_cur_packet_loss :: double
  fp_cur_latency :: double
  fp_cur_jitter :: double
  fp_current_congestion :: double
  fp_current_score :: double

record PerformanceMetrics_fp =
  fp_bandwidth_improvement :: double
  fp_quality_improvement :: double
  fp_network_efficiency :: double

record OptimalConfiguration_fp =
  fp_opt_bandwidth :: double
  fp_opt_predicted_score :: double
  fp_predicted_congestion :: string
  fp_congestion_reduction :: double
  fp_opt_video_quality :: VideoRec_fp
  fp_performance_metrics :: PerformanceMetrics_fp

record OptimizeResponse_fp =
  fp_opt_timestamp :: string
  fp_current_conditions :: CurrentConditions_fp
  fp_optimal_configuration :: OptimalConfiguration_fp
  fp_step_by_step_optimization :: "OptimizationStep_fp list"
  fp_opt_recommendations :: "string list"
  fp_opt_status :: string

fun optimization_loop_fp ::
  "NetworkConditions_fp \<Rightarrow> double list \<Rightarrow> OptimizationStep_fp list
     \<Rightarrow> py_error + OptimizationStep_fp list" where
  "optimization_loop_fp conditions [] optimization_steps = Inr optimization_steps"
| "optimization_loop_fp conditions (bw # bws) optimization_steps =
    (let test_conditions = conditions\<lparr>fp_bandwidth := bw\<rparr>
     in case NetworkConditions_init_fp test_conditions of
          Inl e \<Rightarrow> Inl e
        | Inr tc \<Rightarrow>
            (let test_analysis = analyze_network_fp tc
             in case NetworkConditions_init_fp test_conditions of
                  Inl e \<Rightarrow> Inl e
                | Inr tc' \<Rightarrow>
                    (let video_rec =
                           get_video_recommendations_fp tc' (fp_network_score test_analysis)
                     in optimization_loop_fp conditions bws
                          (optimization_steps @
                             [\<lparr>fp_step_bandwidth = bw,
                               fp_predicted_score = fp_network_score test_analysis,
                               fp_step_congestion_level = fp_congestion_level test_analysis,
                               fp_video_quality = video_rec\<rparr>]))))"

text \<open>The value the function returns; its serialisation to JSON is not part of it.\<close>

definition optimize_network_fp ::
  "string \<Rightarrow> NetworkConditions_fp \<Rightarrow> http_error + OptimizeResponse_fp" where
  "optimize_network_fp now conditions =
    (let analysis = analyze_network_fp conditions;
         min_bw = fp_mul (fp_bandwidth conditions) (Finite 0.5);
         max_bw = fp_mul (fp_bandwidth conditions) (Finite 2.0);
         steps = linspace_fp min_bw max_bw 10
     in case optimization_loop_fp conditions steps [] of
          Inl e \<Rightarrow> Inl (HTTPException 500 e)
        | Inr optimization_steps \<Rightarrow>
           (case py_max_by_fp fp_predicted_score optimization_steps of
              Inl e \<Rightarrow> Inl (HTTPException 500 e)
            | Inr optimal_step \<Rightarrow>
               (let initial_congestion = fp_sub (Finite 100) (fp_network_score analysis);
                    optimal_congestion = fp_sub (Finite 100) (fp_predicted_score optimal_step);
                    congestion_reduction = fp_sub initial_congestion optimal_congestion
                in case py_truediv_fp (fp_step_bandwidth optimal_step) (fp_bandwidth conditions) of
                     Inl e \<Rightarrow> Inl (HTTPException 500 e)
                   | Inr bw_ratio \<Rightarrow>
                      (case py_truediv_fp (fp_predicted_score optimal_step)
                                          (fp_step_bandwidth optimal_step) of
                         Inl e \<Rightarrow> Inl (HTTPException 500 e)
                       | Inr efficiency \<Rightarrow>
                          Inr \<lparr>fp_opt_timestamp = now,
                               fp_current_conditions =
                                 \<lparr>fp_cur_bandwidth = fp_bandwidth conditions,
                                  fp_cur_throughput = fp_throughput conditions,
                                  fp_cur_packet_loss = fp_packet_loss conditions,
                                  fp_cur_latency = fp_latency conditions,
                                  fp_cur_jitter = fp_jitter conditions,
                                  fp_current_congestion = initial_congestion,
                                  fp_current_score = fp_network_score analysis\<rparr>,
                               fp_optimal_configuration =
                                 \<lparr>fp_opt_bandwidth = fp_step_bandwidth optimal_step,
                                  fp_opt_predicted_score = fp_predicted_score optimal_step,
                                  fp_predicted_congestion = fp_step_congestion_level optimal_step,
                                  fp_congestion_reduction = congestion_reduction,
                                  fp_opt_video_quality = fp_video_quality optimal_step,
                                  fp_performance_metrics =
                                    \<lparr>fp_bandwidth_improvement =
                                       fp_mul (fp_sub bw_ratio (Finite 1)) (Finite 100),
                                     fp_quality_improvement =
                                       fp_sub (fp_predicted_score optimal_step)
                                              (fp_network_score analysis),
                                     fp_network_efficiency = efficiency\<rparr>\<rparr>,
                               fp_step_by_step_optimization = optimization_steps,
                               fp_opt_recommendations = fp_recommendations analysis,
                               fp_opt_status = ''success''\<rparr>))))"

subsection \<open>Notions used to state the properties\<close>

text \<open>The step that one iteration of the loop of \<^verbatim>\<open>optimize_network\<close> records for the
  candidate \<open>bw\<close>: the conditions with only the bandwidth replaced are scored and profiled.\<close>

definition step_at :: "NetworkConditions \<Rightarrow> real \<Rightarrow> OptimizationStep" where
  "step_at conditions bw =
     (let test_conditions = conditions\<lparr>bandwidth := bw\<rparr>;
          test_analysis = analyze_network test_conditions
      in \<lparr>step_bandwidth = bw,
          predicted_score = network_score test_analysis,
          step_congestion_level = congestion_level test_analysis,
          video_quality = get_video_recommendations test_conditions (network_score test_analysis)\<rparr>)"

text \<open>The tier of a stream profile: its four discrete fields (all but the bitrate).\<close>

definition profile_template :: "VideoRec \<Rightarrow> string \<times> int \<times> string \<times> string" where
  "profile_template v = (resolution v, fps v, codec v, streaming_quality v)"

text \<open>Concrete inputs: one whose raw score (105) is clamped to 100, one whose raw score (-285)
  is clamped to 0, and one in the middle (score 70) whose bandwidth term saturates inside the
  optimizer's grid.\<close>

definition example_capped :: NetworkConditions where
  "example_capped = \<lparr>bandwidth = 10, throughput = 0.5, packet_loss = 0, latency = 20, jitter = 5\<rparr>"

definition example_degenerate :: NetworkConditions where
  "example_degenerate = \<lparr>bandwidth = 1, throughput = 0, packet_loss = 20, latency = 200, jitter = 50\<rparr>"

definition example_mid :: NetworkConditions where
  "example_mid = \<lparr>bandwidth = 4, throughput = 0.5, packet_loss = 10, latency = 40, jitter = 4\<rparr>"

text \<open>The same step in doubles.\<close>

definition step_at_fp :: "NetworkConditions_fp \<Rightarrow> double \<Rightarrow> OptimizationStep_fp" where
  "step_at_fp conditions bw =
     (let test_conditions = conditions\<lparr>fp_bandwidth := bw\<rparr>;
          test_analysis = analyze_network_fp test_conditions
      in \<lparr>fp_step_bandwidth = bw,
          fp_predicted_score = fp_network_score test_analysis,
          fp_step_congestion_level = fp_congestion_level test_analysis,
          fp_video_quality =
            get_video_recommendations_fp test_conditions (fp_network_score test_analysis)\<rparr>)"

text \<open>Inputs in doubles: the values of \<open>example_mid\<close> with the bandwidth \<open>n\<close> times the
  smallest positive double (\<^verbatim>\<open>5e-324\<close> for \<open>n = 1\<close>, \<^verbatim>\<open>1e-323\<close> for \<open>n = 2\<close>).\<close>

definition example_tiny :: "real \<Rightarrow> NetworkConditions_fp" where
  "example_tiny n =
     \<lparr>fp_bandwidth = Finite (n * denorm_min), fp_throughput = Finite 0.5,
      fp_packet_loss = Finite 10, fp_latency = Finite 40, fp_jitter = Finite 4\<rparr>"

text \<open>The values of \<open>example_mid\<close> with the bandwidth \<open>2 ^ 1023\<close> (about \<^verbatim>\<open>9e307\<close>), the
  largest power of two among the doubles.\<close>

definition example_huge :: NetworkConditions_fp where
  "example_huge =
     \<lparr>fp_bandwidth = Finite (pow2 1023), fp_throughput = Finite 0.5,
      fp_packet_loss = Finite 10, fp_latency = Finite 40, fp_jitter = Finite 4\<rparr>"

section \<open>Properties\<close>

subsection \<open>Scorer: auxiliary facts\<close>

lemma analyze_network_score:
  "network_score (analyze_network c) =
     max 0 (min 100 (100 - packet_loss c * 2 - latency c * 0.5 - jitter c * 5
                     + throughput c * 20 + min (bandwidth c * 5) 30))"
  by (simp add: analyze_network_def Let_def)

lemma analyze_network_congestion:
  "congestion_level (analyze_network c) =
     (if network_score (analyze_network c) \<ge> 80 then ''Low''
      else if network_score (analyze_network c) \<ge> 60 then ''Moderate''
      else if network_score (analyze_network c) \<ge> 40 then ''High''
      else ''Severe'')"
  by (simp add: analyze_network_def Let_def)

lemma analyze_network_rating:
  "performance_rating (analyze_network c) =
     (if network_score (analyze_network c) \<ge> 90 then ''Excellent''
      else if network_score (analyze_network c) \<ge> 75 then ''Good''
      else if network_score (analyze_network c) \<ge> 60 then ''Fair''
      else if network_score (analyze_network c) \<ge> 40 then ''Poor''
      else ''Critical'')"
  by (simp add: analyze_network_def Let_def)

lemma score_mono_bandwidth:
  "b1 \<le> b2 \<Longrightarrow>
     network_score (analyze_network (c\<lparr>bandwidth := b1\<rparr>))
       \<le> network_score (analyze_network (c\<lparr>bandwidth := b2\<rparr>))"
  unfolding analyze_network_score by (simp add: min_def max_def)

lemma example_capped_valid: "valid_conditions example_capped"
  by (simp add: valid_conditions_def example_capped_def)

lemma example_degenerate_valid: "valid_conditions example_degenerate"
  by (simp add: valid_conditions_def example_degenerate_def)

lemma example_mid_valid: "valid_conditions example_mid"
  by (simp add: valid_conditions_def example_mid_def)

lemma example_capped_score: "network_score (analyze_network example_capped) = 100"
  by (simp add: analyze_network_score example_capped_def)

lemma example_degenerate_score: "network_score (analyze_network example_degenerate) = 0"
  by (simp add: analyze_network_score example_degenerate_def)

lemma example_mid_score: "network_score (analyze_network example_mid) = 70"
  by (simp add: analyze_network_score example_mid_def)

text \<open>\<^bold>\<open>C1.\<close> For every valid input the score is the raw sum
  \<open>100 - packet_loss * 2 - latency * 0.5 - jitter * 5 + throughput * 20 + min (bandwidth * 5) 30\<close>
  clamped to \<open>[0, 100]\<close>, and so lies between 0 and 100.\<close>

theorem score_formula_and_range:
  assumes "valid_conditions c"
  shows "network_score (analyze_network c) =
           max 0 (min 100 (100 - packet_loss c * 2 - latency c * 0.5 - jitter c * 5
                           + throughput c * 20 + min (bandwidth c * 5) 30))
         \<and> 0 \<le> network_score (analyze_network c)
         \<and> network_score (analyze_network c) \<le> 100"
  by (simp add: analyze_network_score)

theorem score_formula_and_range_witness:
  "valid_conditions example_capped
   \<and> network_score (analyze_network example_capped) = 100
   \<and> valid_conditions example_degenerate
   \<and> network_score (analyze_network example_degenerate) = 0"
  using score_formula_and_range [OF example_capped_valid]
        score_formula_and_range [OF example_degenerate_valid]
  by (simp add: example_capped_valid example_degenerate_valid)
     (simp add: example_capped_def example_degenerate_def)

text \<open>\<^bold>\<open>C2.\<close> The congestion level and the performance rating are determined by the clamped
  score with the thresholds 80/60/40 and 90/75/60/40; equal scores give equal bands; and a
  higher score never gives a band of lower quality.\<close>

theorem bands_of_score:
  "congestion_level (analyze_network c) =
     (if network_score (analyze_network c) \<ge> 80 then ''Low''
      else if network_score (analyze_network c) \<ge> 60 then ''Moderate''
      else if network_score (analyze_network c) \<ge> 40 then ''High''
      else ''Severe'')
   \<and> performance_rating (analyze_network c) =
     (if network_score (analyze_network c) \<ge> 90 then ''Excellent''
      else if network_score (analyze_network c) \<ge> 75 then ''Good''
      else if network_score (analyze_network c) \<ge> 60 then ''Fair''
      else if network_score (analyze_network c) \<ge> 40 then ''Poor''
      else ''Critical'')
   \<and> (network_score (analyze_network c) = network_score (analyze_network c') \<longrightarrow>
        congestion_level (analyze_network c) = congestion_level (analyze_network c')
        \<and> performance_rating (analyze_network c) = performance_rating (analyze_network c'))
   \<and> (network_score (analyze_network c) \<le> network_score (analyze_network c') \<longrightarrow>
        congestion_quality (congestion_level (analyze_network c))
          \<le> congestion_quality (congestion_level (analyze_network c'))
        \<and> rating_quality (performance_rating (analyze_network c))
          \<le> rating_quality (performance_rating (analyze_network c')))"
proof (intro conjI impI)
  show "congestion_level (analyze_network c) =
     (if network_score (analyze_network c) \<ge> 80 then ''Low''
      else if network_score (analyze_network c) \<ge> 60 then ''Moderate''
      else if network_score (analyze_network c) \<ge> 40 then ''High''
      else ''Severe'')"
    by (rule analyze_network_congestion)
  show "performance_rating (analyze_network c) =
     (if network_score (analyze_network c) \<ge> 90 then ''Excellent''
      else if network_score (analyze_network c) \<ge> 75 then ''Good''
      else if network_score (analyze_network c) \<ge> 60 then ''Fair''
      else if network_score (analyze_network c) \<ge> 40 then ''Poor''
      else ''Critical'')"
    by (rule analyze_network_rating)
next
  assume "network_score (analyze_network c) = network_score (analyze_network c')"
  then show "congestion_level (analyze_network c) = congestion_level (analyze_network c')"
    by (simp add: analyze_network_congestion)
next
  assume "network_score (analyze_network c) = network_score (analyze_network c')"
  then show "performance_rating (analyze_network c) = performance_rating (analyze_network c')"
    by (simp add: analyze_network_rating)
next
  assume "network_score (analyze_network c) \<le> network_score (analyze_network c')"
  then show "congestion_quality (congestion_level (analyze_network c))
          \<le> congestion_quality (congestion_level (analyze_network c'))"
    by (simp add: analyze_network_congestion congestion_quality_def)
next
  assume "network_score (analyze_network c) \<le> network_score (analyze_network c')"
  then show "rating_quality (performance_rating (analyze_network c))
          \<le> rating_quality (performance_rating (analyze_network c'))"
    by (simp add: analyze_network_rating rating_quality_def)
qed

text \<open>At scores 70 and 100: Moderate/Fair below Low/Excellent; and two different inputs of
  score 100 have the same bands.\<close>

theorem bands_of_score_witness:
  "network_score (analyze_network example_mid) \<le> network_score (analyze_network example_capped)
   \<and> congestion_level (analyze_network example_mid) = ''Moderate''
   \<and> performance_rating (analyze_network example_mid) = ''Fair''
   \<and> congestion_quality (congestion_level (analyze_network example_mid))
       \<le> congestion_quality (congestion_level (analyze_network example_capped))
   \<and> rating_quality (performance_rating (analyze_network example_mid))
       \<le> rating_quality (performance_rating (analyze_network example_capped))
   \<and> network_score (analyze_network example_capped)
       = network_score (analyze_network (example_capped\<lparr>jitter := 0\<rparr>))
   \<and> congestion_level (analyze_network example_capped)
       = congestion_level (analyze_network (example_capped\<lparr>jitter := 0\<rparr>))
   \<and> performance_rating (analyze_network example_capped)
       = performance_rating (analyze_network (example_capped\<lparr>jitter := 0\<rparr>))"
proof -
  have le: "network_score (analyze_network example_mid) \<le> network_score (analyze_network example_capped)"
    by (simp add: example_mid_score example_capped_score)
  have eq: "network_score (analyze_network example_capped)
              = network_score (analyze_network (example_capped\<lparr>jitter := 0\<rparr>))"
    by (simp add: analyze_network_score example_capped_def)
  note t1 = bands_of_score [of example_mid example_capped]
  note t2 = bands_of_score [of example_capped "example_capped\<lparr>jitter := 0\<rparr>"]
  from t1 have b: "congestion_level (analyze_network example_mid) = ''Moderate''
                   \<and> performance_rating (analyze_network example_mid) = ''Fair''"
    by (simp add: example_mid_score)
  from t1 le have q: "congestion_quality (congestion_level (analyze_network example_mid))
       \<le> congestion_quality (congestion_level (analyze_network example_capped))
   \<and> rating_quality (performance_rating (analyze_network example_mid))
       \<le> rating_quality (performance_rating (analyze_network example_capped))"
    by blast
  from t2 eq have e: "congestion_level (analyze_network example_capped)
       = congestion_level (analyze_network (example_capped\<lparr>jitter := 0\<rparr>))
   \<and> performance_rating (analyze_network example_capped)
       = performance_rating (analyze_network (example_capped\<lparr>jitter := 0\<rparr>))"
    by blast
  show ?thesis using le b q eq e by blast
qed

subsection \<open>Optimizer: auxiliary facts\<close>

lemma step_at_bandwidth: "step_bandwidth (step_at c bw) = bw"
  by (simp add: step_at_def Let_def)

lemma step_at_score:
  "predicted_score (step_at c bw) = network_score (analyze_network (c\<lparr>bandwidth := bw\<rparr>))"
  by (simp add: step_at_def Let_def)

lemma upt_10: "[0..<10] = [0, 1, 2, 3, 4, 5, 6, 7, 8, 9::nat]"
  by (simp add: upt_rec)

lemma linspace_10:
  "linspace a b 10 =
     [a, (b - a) / 9 + a, 2 * ((b - a) / 9) + a, 3 * ((b - a) / 9) + a, 4 * ((b - a) / 9) + a,
      5 * ((b - a) / 9) + a, 6 * ((b - a) / 9) + a, 7 * ((b - a) / 9) + a,
      8 * ((b - a) / 9) + a, b]"
  by (simp add: linspace_def Let_def upt_10)

lemma linspace_10_length: "length (linspace a b 10) = 10"
  by (simp add: linspace_10)

text \<open>The grid of \<^verbatim>\<open>numpy.linspace\<close> is the interpolation formula of the specification.\<close>

lemma candidates_eq:
  "linspace (w * 0.5) (w * 2.0) 10 =
     map (\<lambda>i. w * 0.5 + real i * (w * 2.0 - w * 0.5) / 9) [0..<10]"
  by (simp add: linspace_10 upt_10)

lemma candidates_explicit:
  "linspace (w * 0.5) (w * 2.0) 10 =
     [w / 2, 2 * w / 3, 5 * w / 6, w, 7 * w / 6, 4 * w / 3, 3 * w / 2, 5 * w / 3, 11 * w / 6, 2 * w]"
  by (simp add: linspace_10)

lemma candidates_positive:
  "0 < w \<Longrightarrow> \<forall>bw \<in> set (linspace (w * 0.5) (w * 2.0) 10). 0 < bw"
  unfolding candidates_explicit by simp

lemma candidates_bounds:
  "0 < w \<Longrightarrow> \<forall>bw \<in> set (linspace (w * 0.5) (w * 2.0) 10). 0.5 * w \<le> bw \<and> bw \<le> 2.0 * w"
  unfolding candidates_explicit by simp

lemma candidate_increasing:
  fixes w :: real
  assumes "0 < w" "i < j"
  shows "w * 0.5 + real i * (w * 2.0 - w * 0.5) / 9 < w * 0.5 + real j * (w * 2.0 - w * 0.5) / 9"
proof -
  define d where "d = (w * 2.0 - w * 0.5) / 9"
  have "0 < d" using assms(1) by (simp add: d_def)
  moreover have "real i < real j" using assms(2) by simp
  ultimately have "real i * d < real j * d" by (rule mult_strict_right_mono [rotated])
  then have "w * 0.5 + real i * d < w * 0.5 + real j * d" by simp
  then show ?thesis by (simp only: d_def times_divide_eq_right)
qed

lemma valid_conditions_bandwidth_update:
  "valid_conditions c \<Longrightarrow> 0 < bw \<Longrightarrow> valid_conditions (c\<lparr>bandwidth := bw\<rparr>)"
  by (simp add: valid_conditions_def)

text \<open>On valid conditions and positive candidates the loop raises nothing and appends one step
  per candidate, in order.\<close>

lemma optimization_loop_valid:
  "valid_conditions c \<Longrightarrow> \<forall>bw \<in> set bws. 0 < bw \<Longrightarrow>
     optimization_loop c bws acc = Inr (acc @ map (step_at c) bws)"
proof (induction bws arbitrary: acc)
  case Nil
  then show ?case by simp
next
  case (Cons bw bws)
  then have v: "valid_conditions (c\<lparr>bandwidth := bw\<rparr>)"
    by (simp add: valid_conditions_bandwidth_update)
  from Cons have rest: "\<forall>bw \<in> set bws. 0 < bw" by simp
  show ?case
    using v Cons.IH [OF Cons.prems(1) rest]
    by (simp add: NetworkConditions_init_def Let_def step_at_def)
qed

text \<open>The running maximum: it dominates the start value and every item, and it is either the
  start value (then no item exceeds it) or the first item that reaches the final key.\<close>

lemma max_from_props:
  "key best \<le> key (max_from key best xs)
   \<and> (\<forall>x \<in> set xs. key x \<le> key (max_from key best xs))
   \<and> ((max_from key best xs = best \<and> (\<forall>x \<in> set xs. key x \<le> key best))
       \<or> (\<exists>k < length xs. max_from key best xs = xs ! k \<and> key best < key (xs ! k)
             \<and> (\<forall>j < k. key (xs ! j) < key (xs ! k))))"
proof (induction xs arbitrary: best)
  case Nil
  then show ?case by simp
next
  case (Cons x xs)
  show ?case
  proof (cases "key x > key best")
    case True
    let ?m = "max_from key x xs"
    have eq: "max_from key best (x # xs) = ?m" using True by simp
    note IH = Cons.IH [of x]
    have a: "key best \<le> key ?m" using IH True by linarith
    have b: "\<forall>y \<in> set (x # xs). key y \<le> key ?m" using IH by simp
    have c: "\<exists>k < length (x # xs). ?m = (x # xs) ! k \<and> key best < key ((x # xs) ! k)
               \<and> (\<forall>j < k. key ((x # xs) ! j) < key ((x # xs) ! k))"
    proof -
      from IH consider (first) "?m = x"
        | (later) k where "k < length xs" "?m = xs ! k" "key x < key (xs ! k)"
                          "\<forall>j < k. key (xs ! j) < key (xs ! k)"
        by blast
      then show ?thesis
      proof cases
        case first
        then have "?m = (x # xs) ! 0 \<and> key best < key ((x # xs) ! 0)
               \<and> (\<forall>j < 0. key ((x # xs) ! j) < key ((x # xs) ! 0))"
          using True by simp
        then show ?thesis by (intro exI [of _ 0]) simp
      next
        case later
        have "\<forall>j < Suc k. key ((x # xs) ! j) < key ((x # xs) ! Suc k)"
          using later by (auto simp: less_Suc_eq_0_disj)
        moreover have "key best < key ((x # xs) ! Suc k)" using later True by simp
        ultimately show ?thesis using later by (intro exI [of _ "Suc k"]) simp
      qed
    qed
    show ?thesis unfolding eq using a b c by blast
  next
    case False
    let ?m = "max_from key best xs"
    have eq: "max_from key best (x # xs) = ?m" using False by simp
    note IH = Cons.IH [of best]
    have a: "key best \<le> key ?m" using IH by simp
    have b: "\<forall>y \<in> set (x # xs). key y \<le> key ?m" using IH False by auto
    from IH consider (stay) "?m = best" "\<forall>y \<in> set xs. key y \<le> key best"
        | (later) k where "k < length xs" "?m = xs ! k" "key best < key (xs ! k)"
                          "\<forall>j < k. key (xs ! j) < key (xs ! k)"
      by blast
    then have c: "(?m = best \<and> (\<forall>y \<in> set (x # xs). key y \<le> key best))
       \<or> (\<exists>k < length (x # xs). ?m = (x # xs) ! k \<and> key best < key ((x # xs) ! k)
             \<and> (\<forall>j < k. key ((x # xs) ! j) < key ((x # xs) ! k)))"
    proof cases
      case stay
      then show ?thesis using False by auto
    next
      case later
      have "\<forall>j < Suc k. key ((x # xs) ! j) < key ((x # xs) ! Suc k)"
        using later False by (auto simp: less_Suc_eq_0_disj)
      moreover have "key best < key ((x # xs) ! Suc k)" using later by simp
      ultimately have "\<exists>k < length (x # xs). ?m = (x # xs) ! k \<and> key best < key ((x # xs) ! k)
             \<and> (\<forall>j < k. key ((x # xs) ! j) < key ((x # xs) ! k))"
        using later by (intro exI [of _ "Suc k"]) simp
      then show ?thesis by blast
    qed
    show ?thesis unfolding eq using a b c by blast
  qed
qed

lemma py_max_first:
  assumes "xs \<noteq> []"
  shows "\<exists>k < length xs. py_max key xs = Inr (xs ! k)
           \<and> (\<forall>j < length xs. key (xs ! j) \<le> key (xs ! k))
           \<and> (\<forall>j < k. key (xs ! j) < key (xs ! k))"
proof -
  from assms obtain b rest where xs: "xs = b # rest" by (cases xs) auto
  let ?m = "max_from key b rest"
  have pm: "py_max key xs = Inr ?m" by (simp add: py_max_def xs)
  have all: "\<forall>j < length xs. key (xs ! j) \<le> key ?m"
  proof (intro allI impI)
    fix j assume "j < length xs"
    then have "xs ! j \<in> set (b # rest)" using xs nth_mem by metis
    then show "key (xs ! j) \<le> key ?m" using max_from_props [of key b rest] by auto
  qed
  from max_from_props [of key b rest]
  consider (stay) "?m = b"
    | (later) k where "k < length rest" "?m = rest ! k" "key b < key (rest ! k)"
                          "\<forall>j < k. key (rest ! j) < key (rest ! k)"
    by blast
  then show ?thesis
  proof cases
    case stay
    then have "0 < length xs \<and> py_max key xs = Inr (xs ! 0)
           \<and> (\<forall>j < length xs. key (xs ! j) \<le> key (xs ! 0))
           \<and> (\<forall>j < 0. key (xs ! j) < key (xs ! 0))"
      using pm all xs by simp
    then show ?thesis by blast
  next
    case later
    have "\<forall>j < Suc k. key (xs ! j) < key (xs ! Suc k)"
      using later xs by (auto simp: less_Suc_eq_0_disj)
    moreover have "Suc k < length xs" using later xs by simp
    moreover have "py_max key xs = Inr (xs ! Suc k)" using pm later xs by simp
    moreover have "\<forall>j < length xs. key (xs ! j) \<le> key (xs ! Suc k)"
      using all later xs by simp
    ultimately show ?thesis by blast
  qed
qed

text \<open>What \<^verbatim>\<open>optimize_network\<close> returns on valid conditions, given the step that
  \<^verbatim>\<open>max\<close> selects: no exception is raised, and every reported number is as follows.\<close>

lemma optimize_network_unfold:
  assumes v: "valid_conditions c"
    and m: "py_max predicted_score
              (map (step_at c) (linspace (bandwidth c * 0.5) (bandwidth c * 2.0) 10)) = Inr opt"
    and nz: "step_bandwidth opt \<noteq> 0"
  shows "\<exists>r. optimize_network now c = Inr r
     \<and> step_by_step_optimization r
         = map (step_at c) (linspace (bandwidth c * 0.5) (bandwidth c * 2.0) 10)
     \<and> opt_bandwidth (optimal_configuration r) = step_bandwidth opt
     \<and> opt_predicted_score (optimal_configuration r) = predicted_score opt
     \<and> predicted_congestion (optimal_configuration r) = step_congestion_level opt
     \<and> opt_video_quality (optimal_configuration r) = video_quality opt
     \<and> congestion_reduction (optimal_configuration r)
         = (100 - network_score (analyze_network c)) - (100 - predicted_score opt)
     \<and> bandwidth_improvement (performance_metrics (optimal_configuration r))
         = (step_bandwidth opt / bandwidth c - 1) * 100
     \<and> quality_improvement (performance_metrics (optimal_configuration r))
         = predicted_score opt - network_score (analyze_network c)
     \<and> network_efficiency (performance_metrics (optimal_configuration r))
         = predicted_score opt / step_bandwidth opt
     \<and> current_score (current_conditions r) = network_score (analyze_network c)"
proof -
  have bpos: "0 < bandwidth c" using v by (simp add: valid_conditions_def)
  have loop: "optimization_loop c (linspace (bandwidth c * 0.5) (bandwidth c * 2.0) 10) []
                = Inr (map (step_at c) (linspace (bandwidth c * 0.5) (bandwidth c * 2.0) 10))"
    using optimization_loop_valid [OF v candidates_positive [OF bpos], of "[]"] by simp
  show ?thesis
    unfolding optimize_network_def Let_def loop
    using m nz bpos by (simp add: py_truediv_def)
qed

text \<open>On valid conditions \<^verbatim>\<open>max\<close> selects the step at some index \<open>k\<close> of the ten: no step
  scores higher, every earlier step scores strictly lower, and its bandwidth is positive.\<close>

lemma optimize_network_result:
  assumes v: "valid_conditions c"
  shows "\<exists>r. \<exists>k < 10. optimize_network now c = Inr r
     \<and> step_by_step_optimization r
         = map (step_at c) (linspace (bandwidth c * 0.5) (bandwidth c * 2.0) 10)
     \<and> (\<forall>j < 10. predicted_score (step_by_step_optimization r ! j)
                     \<le> predicted_score (step_by_step_optimization r ! k))
     \<and> (\<forall>j < k. predicted_score (step_by_step_optimization r ! j)
                     < predicted_score (step_by_step_optimization r ! k))
     \<and> 0 < step_bandwidth (step_by_step_optimization r ! k)
     \<and> opt_bandwidth (optimal_configuration r) = step_bandwidth (step_by_step_optimization r ! k)
     \<and> opt_predicted_score (optimal_configuration r)
         = predicted_score (step_by_step_optimization r ! k)
     \<and> predicted_congestion (optimal_configuration r)
         = step_congestion_level (step_by_step_optimization r ! k)
     \<and> opt_video_quality (optimal_configuration r) = video_quality (step_by_step_optimization r ! k)
     \<and> congestion_reduction (optimal_configuration r)
         = (100 - network_score (analyze_network c))
           - (100 - predicted_score (step_by_step_optimization r ! k))
     \<and> quality_improvement (performance_metrics (optimal_configuration r))
         = predicted_score (step_by_step_optimization r ! k) - network_score (analyze_network c)
     \<and> network_efficiency (performance_metrics (optimal_configuration r))
         = predicted_score (step_by_step_optimization r ! k)
           / step_bandwidth (step_by_step_optimization r ! k)
     \<and> current_score (current_conditions r) = network_score (analyze_network c)"
proof -
  let ?cands = "linspace (bandwidth c * 0.5) (bandwidth c * 2.0) 10"
  let ?steps = "map (step_at c) ?cands"
  have bpos: "0 < bandwidth c" using v by (simp add: valid_conditions_def)
  have len: "length ?steps = 10" by (simp add: linspace_10_length)
  then have ne: "?steps \<noteq> []" by auto
  from py_max_first [OF ne, of predicted_score] len
  obtain k where k: "k < 10" "py_max predicted_score ?steps = Inr (?steps ! k)"
      "\<forall>j < 10. predicted_score (?steps ! j) \<le> predicted_score (?steps ! k)"
      "\<forall>j < k. predicted_score (?steps ! j) < predicted_score (?steps ! k)"
    by auto
  have "?steps ! k = step_at c (?cands ! k)"
    using k(1) by (simp add: linspace_10_length)
  moreover have "?cands ! k \<in> set ?cands"
    using k(1) by (intro nth_mem) (simp add: linspace_10_length)
  ultimately have pos: "0 < step_bandwidth (?steps ! k)"
    using candidates_positive [OF bpos] by (simp add: step_at_bandwidth)
  then have nz: "step_bandwidth (?steps ! k) \<noteq> 0" by simp
  from optimize_network_unfold [OF v k(2) nz, of now]
  obtain r where r: "optimize_network now c = Inr r"
     "step_by_step_optimization r = ?steps"
     "opt_bandwidth (optimal_configuration r) = step_bandwidth (?steps ! k)"
     "opt_predicted_score (optimal_configuration r) = predicted_score (?steps ! k)"
     "predicted_congestion (optimal_configuration r) = step_congestion_level (?steps ! k)"
     "opt_video_quality (optimal_configuration r) = video_quality (?steps ! k)"
     "congestion_reduction (optimal_configuration r)
         = (100 - network_score (analyze_network c)) - (100 - predicted_score (?steps ! k))"
     "quality_improvement (performance_metrics (optimal_configuration r))
         = predicted_score (?steps ! k) - network_score (analyze_network c)"
     "network_efficiency (performance_metrics (optimal_configuration r))
         = predicted_score (?steps ! k) / step_bandwidth (?steps ! k)"
     "current_score (current_conditions r) = network_score (analyze_network c)"
    by blast
  show ?thesis
    apply (rule exI [of _ r])
    apply (rule exI [of _ k])
    unfolding r(2)
    using k(1,3,4) pos r(1,3-10) by blast
qed

text \<open>In exact arithmetic, on valid conditions the optimizer returns ten steps; the bandwidth of step \<open>i\<close> is
  \<open>min_bw + i * (max_bw - min_bw) / 9\<close> with \<open>min_bw = bandwidth * 0.5\<close> and
  \<open>max_bw = bandwidth * 2.0\<close>; the bandwidths increase strictly, from half to twice the input
  bandwidth; and each step is the one recorded for its candidate with the other four fields
  of the input unchanged.\<close>

lemma optimizer_candidates_exact:
  assumes "valid_conditions c"
  shows "\<exists>r. optimize_network now c = Inr r
     \<and> length (step_by_step_optimization r) = 10
     \<and> (\<forall>i < 10. step_bandwidth (step_by_step_optimization r ! i)
                    = bandwidth c * 0.5 + real i * (bandwidth c * 2.0 - bandwidth c * 0.5) / 9)
     \<and> (\<forall>i < 10. \<forall>j < 10. i < j \<longrightarrow>
           step_bandwidth (step_by_step_optimization r ! i)
             < step_bandwidth (step_by_step_optimization r ! j))
     \<and> step_bandwidth (step_by_step_optimization r ! 0) = 0.5 * bandwidth c
     \<and> step_bandwidth (step_by_step_optimization r ! 9) = 2.0 * bandwidth c
     \<and> (\<forall>i < 10. step_by_step_optimization r ! i
                    = step_at c (step_bandwidth (step_by_step_optimization r ! i)))"
proof -
  let ?cand = "\<lambda>i. bandwidth c * 0.5 + real i * (bandwidth c * 2.0 - bandwidth c * 0.5) / 9"
  let ?steps = "map (step_at c) (linspace (bandwidth c * 0.5) (bandwidth c * 2.0) 10)"
  have bpos: "0 < bandwidth c" using assms by (simp add: valid_conditions_def)
  from optimize_network_result [OF assms, of now]
  obtain r where r: "optimize_network now c = Inr r" "step_by_step_optimization r = ?steps"
    by blast
  have steps: "?steps = map (\<lambda>i. step_at c (?cand i)) [0..<10]"
    unfolding candidates_eq by (simp add: comp_def)
  have nth: "?steps ! i = step_at c (?cand i)" if "i < 10" for i
    unfolding steps using that by simp
  have bw: "step_bandwidth (?steps ! i) = ?cand i" if "i < 10" for i
    using nth [OF that] by (simp add: step_at_bandwidth)
  let ?S = "step_by_step_optimization r"
  have f1: "length ?S = 10" unfolding r(2) by (simp add: linspace_10_length)
  have f2: "\<forall>i < 10. step_bandwidth (?S ! i) = ?cand i" unfolding r(2) using bw by blast
  have f3: "\<forall>i < 10. \<forall>j < 10. i < j \<longrightarrow> step_bandwidth (?S ! i) < step_bandwidth (?S ! j)"
    unfolding r(2) using bw candidate_increasing [OF bpos] by simp
  have f4: "step_bandwidth (?S ! 0) = 0.5 * bandwidth c" using f2 by simp
  have f5: "step_bandwidth (?S ! 9) = 2.0 * bandwidth c" using f2 by simp
  have f6: "\<forall>i < 10. ?S ! i = step_at c (step_bandwidth (?S ! i))"
    unfolding r(2) using nth by (simp add: step_at_bandwidth)
  show ?thesis using r(1) f1 f2 f3 f4 f5 f6 by blast
qed

text \<open>\<^bold>\<open>C4.\<close> On valid conditions the optimal configuration is one of the ten steps; no step
  has a higher predicted score; and every step generated before it has a strictly lower
  predicted score, so among the steps of maximal score it is the first.\<close>

theorem optimizer_selects_first_maximum:
  assumes "valid_conditions c"
  shows "\<exists>r. optimize_network now c = Inr r \<and>
           (\<exists>k < 10.
              opt_bandwidth (optimal_configuration r) = step_bandwidth (step_by_step_optimization r ! k)
            \<and> opt_predicted_score (optimal_configuration r) = predicted_score (step_by_step_optimization r ! k)
            \<and> predicted_congestion (optimal_configuration r) = step_congestion_level (step_by_step_optimization r ! k)
            \<and> opt_video_quality (optimal_configuration r) = video_quality (step_by_step_optimization r ! k)
            \<and> (\<forall>j < 10. predicted_score (step_by_step_optimization r ! j)
                            \<le> opt_predicted_score (optimal_configuration r))
            \<and> (\<forall>j < k. predicted_score (step_by_step_optimization r ! j)
                            < opt_predicted_score (optimal_configuration r)))"
proof -
  from optimize_network_result [OF assms, of now]
  obtain r k where rk: "k < 10" "optimize_network now c = Inr r"
     "\<forall>j < 10. predicted_score (step_by_step_optimization r ! j)
                     \<le> predicted_score (step_by_step_optimization r ! k)"
     "\<forall>j < k. predicted_score (step_by_step_optimization r ! j)
                     < predicted_score (step_by_step_optimization r ! k)"
     "opt_bandwidth (optimal_configuration r) = step_bandwidth (step_by_step_optimization r ! k)"
     "opt_predicted_score (optimal_configuration r)
         = predicted_score (step_by_step_optimization r ! k)"
     "predicted_congestion (optimal_configuration r)
         = step_congestion_level (step_by_step_optimization r ! k)"
     "opt_video_quality (optimal_configuration r) = video_quality (step_by_step_optimization r ! k)"
    by blast
  show ?thesis
    apply (rule exI [of _ r])
    apply (rule conjI [OF rk(2)])
    apply (rule exI [of _ k])
    unfolding rk(6)
    using rk(1,3,4,5,7,8) by blast
qed

text \<open>The input of bandwidth 4, score 70: the candidates 2, 8/3, 10/3, 4, 14/3, 16/3, 6, 20/3,
  22/3, 8 score 60, 63.3, 66.7, 70, 73.3, 76.7, 80, 80, 80, 80; the first of the four maximal
  steps, at bandwidth 6, is selected.\<close>

lemma example_mid_scores:
  "map predicted_score
     (map (step_at example_mid)
        (linspace (bandwidth example_mid * 0.5) (bandwidth example_mid * 2.0) 10))
     = [60, 190/3, 200/3, 70, 220/3, 230/3, 80, 80, 80, 80]"
  unfolding linspace_10
  by (simp add: example_mid_def step_at_score analyze_network_score)

lemma example_mid_bandwidths:
  "map step_bandwidth
     (map (step_at example_mid)
        (linspace (bandwidth example_mid * 0.5) (bandwidth example_mid * 2.0) 10))
     = [2, 8/3, 10/3, 4, 14/3, 16/3, 6, 20/3, 22/3, 8]"
  unfolding linspace_10
  by (simp add: example_mid_def step_at_bandwidth)

lemma example_mid_max:
  "py_max predicted_score
     (map (step_at example_mid)
        (linspace (bandwidth example_mid * 0.5) (bandwidth example_mid * 2.0) 10))
     = Inr (step_at example_mid 6)"
  unfolding linspace_10
  by (simp add: py_max_def step_at_score analyze_network_score example_mid_def)

lemma example_mid_optimum:
  "\<exists>r. optimize_network now example_mid = Inr r
     \<and> map predicted_score (step_by_step_optimization r)
         = [60, 190/3, 200/3, 70, 220/3, 230/3, 80, 80, 80, 80]
     \<and> map step_bandwidth (step_by_step_optimization r)
         = [2, 8/3, 10/3, 4, 14/3, 16/3, 6, 20/3, 22/3, 8]
     \<and> opt_bandwidth (optimal_configuration r) = 6
     \<and> opt_predicted_score (optimal_configuration r) = 80
     \<and> congestion_reduction (optimal_configuration r) = 10
     \<and> quality_improvement (performance_metrics (optimal_configuration r)) = 10
     \<and> network_efficiency (performance_metrics (optimal_configuration r)) = 40 / 3
     \<and> current_score (current_conditions r) = 70"
proof -
  have nz: "step_bandwidth (step_at example_mid 6) \<noteq> 0" by (simp add: step_at_bandwidth)
  have sc: "predicted_score (step_at example_mid 6) = 80"
    by (simp add: step_at_score analyze_network_score example_mid_def)
  from optimize_network_unfold [OF example_mid_valid example_mid_max nz, of now]
  show ?thesis
    unfolding example_mid_scores [symmetric] example_mid_bandwidths [symmetric]
    by (auto simp: sc step_at_bandwidth example_mid_score)
qed

theorem optimizer_selects_first_maximum_witness:
  "valid_conditions example_mid
   \<and> (\<exists>r. optimize_network ''2026-01-01T00:00:00'' example_mid = Inr r
        \<and> opt_bandwidth (optimal_configuration r) = 6
        \<and> opt_predicted_score (optimal_configuration r) = 80
        \<and> step_bandwidth (step_by_step_optimization r ! 6) = 6
        \<and> predicted_score (step_by_step_optimization r ! 5) < 80
        \<and> step_bandwidth (step_by_step_optimization r ! 9) = 8
        \<and> predicted_score (step_by_step_optimization r ! 9) = 80
        \<and> predicted_score (step_by_step_optimization r ! 9)
            \<le> opt_predicted_score (optimal_configuration r))"
proof -
  from optimizer_selects_first_maximum [OF example_mid_valid, of "''2026-01-01T00:00:00''"]
  obtain r where r: "optimize_network ''2026-01-01T00:00:00'' example_mid = Inr r"
    "\<forall>j < 10. predicted_score (step_by_step_optimization r ! j)
                            \<le> opt_predicted_score (optimal_configuration r)"
    by blast
  from example_mid_optimum [of "''2026-01-01T00:00:00''"] r(1)
  have ex: "map predicted_score (step_by_step_optimization r)
         = [60, 190/3, 200/3, 70, 220/3, 230/3, 80, 80, 80, 80]"
     "map step_bandwidth (step_by_step_optimization r)
         = [2, 8/3, 10/3, 4, 14/3, 16/3, 6, 20/3, 22/3, 8]"
     "opt_bandwidth (optimal_configuration r) = 6"
     "opt_predicted_score (optimal_configuration r) = 80"
    by auto
  have len: "length (step_by_step_optimization r) = 10"
    using arg_cong [OF ex(1), of length] by simp
  have sc: "predicted_score (step_by_step_optimization r ! j)
              = [60, 190/3, 200/3, 70, 220/3, 230/3, 80, 80, 80, 80] ! j" if "j < 10" for j
    using nth_map [of j "step_by_step_optimization r" predicted_score] that len ex(1) by simp
  have bw: "step_bandwidth (step_by_step_optimization r ! j)
              = [2, 8/3, 10/3, 4, 14/3, 16/3, 6, 20/3, 22/3, 8] ! j" if "j < 10" for j
    using nth_map [of j "step_by_step_optimization r" step_bandwidth] that len ex(2) by simp
  have le9: "predicted_score (step_by_step_optimization r ! 9)
            \<le> opt_predicted_score (optimal_configuration r)"
    using r(2) by simp
  show ?thesis
    using example_mid_valid r(1) ex(3,4) le9 sc [of 5] sc [of 9] bw [of 6] bw [of 9]
    by simp
qed

subsection \<open>Recommendations and stream profiles\<close>

text \<open>\<^bold>\<open>C5.\<close> The recommendations are the messages of the four gates \<open>packet_loss > 5\<close>,
  \<open>latency > 100\<close>, \<open>jitter > 30\<close>, \<open>throughput < 0.3\<close> on the input fields, each present exactly
  when its gate holds, in that order; the list is empty exactly when no gate holds.\<close>

theorem recommendations_gates:
  "recommendations (analyze_network c) =
     (if packet_loss c > 5
      then [''High packet loss detected. Consider checking network hardware or ISP service.'']
      else [])
     @ (if latency c > 100
        then [''High latency detected. Consider using a closer server or check network routing.'']
        else [])
     @ (if jitter c > 30
        then [''High jitter detected. QoS settings adjustment recommended.'']
        else [])
     @ (if throughput c < 0.3
        then [''Low throughput detected. Bandwidth upgrade or traffic optimization recommended.'']
        else [])
   \<and> (recommendations (analyze_network c) = []
        \<longleftrightarrow> \<not> packet_loss c > 5 \<and> \<not> latency c > 100 \<and> \<not> jitter c > 30 \<and> \<not> throughput c < 0.3)"
  by (simp add: analyze_network_def Let_def)

text \<open>The input of raw score -285 triggers all four gates, the one of raw score 105 none, and
  the one of score 70 only the first.\<close>

theorem recommendations_gates_witness:
  "recommendations (analyze_network example_degenerate) =
     [''High packet loss detected. Consider checking network hardware or ISP service.'',
      ''High latency detected. Consider using a closer server or check network routing.'',
      ''High jitter detected. QoS settings adjustment recommended.'',
      ''Low throughput detected. Bandwidth upgrade or traffic optimization recommended.'']
   \<and> recommendations (analyze_network example_capped) = []
   \<and> recommendations (analyze_network example_mid) =
     [''High packet loss detected. Consider checking network hardware or ISP service.'']"
  using recommendations_gates [of example_degenerate] recommendations_gates [of example_capped]
    recommendations_gates [of example_mid]
  by (simp add: example_degenerate_def example_capped_def example_mid_def)

text \<open>\<^bold>\<open>C6\<close>, as stated, fails: the performance rating changes at 90 and 75, where the tier of
  the stream profile does not, and the tier changes at 80, where the rating does not. At
  scores 80 and 75 the rating is Good both times and the tiers differ; at scores 75 and 74 the
  tier is the same and the ratings differ.\<close>

theorem tiers_not_rating_boundaries:
  "\<not> (profile_template (get_video_recommendations
          \<lparr>bandwidth = 10, throughput = 0, packet_loss = 0, latency = 0, jitter = 10\<rparr>
          (network_score (analyze_network
             \<lparr>bandwidth = 10, throughput = 0, packet_loss = 0, latency = 0, jitter = 10\<rparr>)))
        = profile_template (get_video_recommendations
          \<lparr>bandwidth = 10, throughput = 0, packet_loss = 0, latency = 0, jitter = 11\<rparr>
          (network_score (analyze_network
             \<lparr>bandwidth = 10, throughput = 0, packet_loss = 0, latency = 0, jitter = 11\<rparr>)))
      \<longleftrightarrow>
        performance_rating (analyze_network
          \<lparr>bandwidth = 10, throughput = 0, packet_loss = 0, latency = 0, jitter = 10\<rparr>)
        = performance_rating (analyze_network
          \<lparr>bandwidth = 10, throughput = 0, packet_loss = 0, latency = 0, jitter = 11\<rparr>))
   \<and> \<not> (profile_template (get_video_recommendations
          \<lparr>bandwidth = 10, throughput = 0, packet_loss = 0, latency = 0, jitter = 11\<rparr>
          (network_score (analyze_network
             \<lparr>bandwidth = 10, throughput = 0, packet_loss = 0, latency = 0, jitter = 11\<rparr>)))
        = profile_template (get_video_recommendations
          \<lparr>bandwidth = 10, throughput = 0, packet_loss = 0, latency = 2, jitter = 11\<rparr>
          (network_score (analyze_network
             \<lparr>bandwidth = 10, throughput = 0, packet_loss = 0, latency = 2, jitter = 11\<rparr>)))
      \<longleftrightarrow>
        performance_rating (analyze_network
          \<lparr>bandwidth = 10, throughput = 0, packet_loss = 0, latency = 0, jitter = 11\<rparr>)
        = performance_rating (analyze_network
          \<lparr>bandwidth = 10, throughput = 0, packet_loss = 0, latency = 2, jitter = 11\<rparr>))"
  by (simp add: analyze_network_rating analyze_network_score get_video_recommendations_def
      profile_template_def)

text \<open>\<^bold>\<open>C6\<close>, amended: the tier boundaries of the stream-profile selector are those of the
  congestion level. For the scores of any two analyses, the selector (at any bandwidths)
  chooses the same tier exactly when the congestion levels are the same.\<close>

theorem tiers_are_congestion_boundaries:
  "profile_template (get_video_recommendations b1 (network_score (analyze_network c1)))
     = profile_template (get_video_recommendations b2 (network_score (analyze_network c2)))
   \<longleftrightarrow> congestion_level (analyze_network c1) = congestion_level (analyze_network c2)"
  by (simp add: analyze_network_congestion get_video_recommendations_def profile_template_def)

text \<open>\<^bold>\<open>C7.\<close> The stream profile is the row of the tier table selected by the score, with the
  bitrate \<open>min (bandwidth * fraction) cap\<close> of that row.\<close>

theorem stream_profile_table:
  "(80 \<le> score \<longrightarrow>
      get_video_recommendations c score =
        \<lparr>resolution = ''4K (2160p)'', fps = 60, bitrate = min (bandwidth c * 0.8) 35,
         codec = ''H.265/HEVC'', streaming_quality = ''Ultra High''\<rparr>)
   \<and> (60 \<le> score \<and> score < 80 \<longrightarrow>
      get_video_recommendations c score =
        \<lparr>resolution = ''1080p'', fps = 30, bitrate = min (bandwidth c * 0.7) 15,
         codec = ''H.264/AVC'', streaming_quality = ''High''\<rparr>)
   \<and> (40 \<le> score \<and> score < 60 \<longrightarrow>
      get_video_recommendations c score =
        \<lparr>resolution = ''720p'', fps = 30, bitrate = min (bandwidth c * 0.6) 8,
         codec = ''H.264/AVC'', streaming_quality = ''Medium''\<rparr>)
   \<and> (score < 40 \<longrightarrow>
      get_video_recommendations c score =
        \<lparr>resolution = ''480p'', fps = 24, bitrate = min (bandwidth c * 0.5) 4,
         codec = ''H.264/AVC'', streaming_quality = ''Low''\<rparr>)"
  by (simp add: get_video_recommendations_def)

text \<open>At bandwidth 4 the bitrate is the fraction of the bandwidth; at bandwidth 100 it is the
  cap.\<close>

theorem stream_profile_table_witness:
  "get_video_recommendations example_mid 85 =
        \<lparr>resolution = ''4K (2160p)'', fps = 60, bitrate = 16 / 5,
         codec = ''H.265/HEVC'', streaming_quality = ''Ultra High''\<rparr>
   \<and> get_video_recommendations (example_mid\<lparr>bandwidth := 100\<rparr>) 70 =
        \<lparr>resolution = ''1080p'', fps = 30, bitrate = 15,
         codec = ''H.264/AVC'', streaming_quality = ''High''\<rparr>
   \<and> get_video_recommendations example_mid 40 =
        \<lparr>resolution = ''720p'', fps = 30, bitrate = 12 / 5,
         codec = ''H.264/AVC'', streaming_quality = ''Medium''\<rparr>
   \<and> get_video_recommendations (example_mid\<lparr>bandwidth := 100\<rparr>) 0 =
        \<lparr>resolution = ''480p'', fps = 24, bitrate = 4,
         codec = ''H.264/AVC'', streaming_quality = ''Low''\<rparr>"
  using stream_profile_table [of 85 example_mid]
        stream_profile_table [of 70 "example_mid\<lparr>bandwidth := 100\<rparr>"]
        stream_profile_table [of 40 example_mid]
        stream_profile_table [of 0 "example_mid\<lparr>bandwidth := 100\<rparr>"]
  by (simp add: example_mid_def)

subsection \<open>Derived metrics\<close>

text \<open>In exact arithmetic, on valid conditions the optimizer raises no exception: every candidate bandwidth
  lies between half and twice the positive input bandwidth and is positive, so the divisor of
  \<open>network_efficiency\<close>, the bandwidth of the optimal step, is not zero, and the efficiency is
  the optimal predicted score divided by that bandwidth.\<close>

lemma network_efficiency_exact:
  assumes "valid_conditions c"
  shows "\<exists>r. optimize_network now c = Inr r
     \<and> network_efficiency (performance_metrics (optimal_configuration r))
         = opt_predicted_score (optimal_configuration r) / opt_bandwidth (optimal_configuration r)
     \<and> py_truediv (opt_predicted_score (optimal_configuration r))
                   (opt_bandwidth (optimal_configuration r))
         = Inr (network_efficiency (performance_metrics (optimal_configuration r)))
     \<and> 0 < opt_bandwidth (optimal_configuration r)
     \<and> (\<forall>s \<in> set (step_by_step_optimization r).
           0 < step_bandwidth s
           \<and> 0.5 * bandwidth c \<le> step_bandwidth s \<and> step_bandwidth s \<le> 2.0 * bandwidth c)"
proof -
  let ?cands = "linspace (bandwidth c * 0.5) (bandwidth c * 2.0) 10"
  have bpos: "0 < bandwidth c" using assms by (simp add: valid_conditions_def)
  from optimize_network_result [OF assms, of now]
  obtain r k where rk: "optimize_network now c = Inr r"
     "step_by_step_optimization r = map (step_at c) ?cands"
     "0 < step_bandwidth (step_by_step_optimization r ! k)"
     "opt_bandwidth (optimal_configuration r) = step_bandwidth (step_by_step_optimization r ! k)"
     "opt_predicted_score (optimal_configuration r)
         = predicted_score (step_by_step_optimization r ! k)"
     "network_efficiency (performance_metrics (optimal_configuration r))
         = predicted_score (step_by_step_optimization r ! k)
           / step_bandwidth (step_by_step_optimization r ! k)"
    by blast
  have pos: "0 < opt_bandwidth (optimal_configuration r)" using rk(3,4) by simp
  have eff: "network_efficiency (performance_metrics (optimal_configuration r))
         = opt_predicted_score (optimal_configuration r) / opt_bandwidth (optimal_configuration r)"
    using rk(4,5,6) by simp
  have dv: "py_truediv (opt_predicted_score (optimal_configuration r))
                   (opt_bandwidth (optimal_configuration r))
         = Inr (network_efficiency (performance_metrics (optimal_configuration r)))"
    using pos eff by (simp add: py_truediv_def)
  have all: "\<forall>s \<in> set (step_by_step_optimization r).
           0 < step_bandwidth s
           \<and> 0.5 * bandwidth c \<le> step_bandwidth s \<and> step_bandwidth s \<le> 2.0 * bandwidth c"
    unfolding rk(2)
    using candidates_positive [OF bpos] candidates_bounds [OF bpos]
    by (auto simp: step_at_bandwidth)
  show ?thesis using rk(1) eff dv pos all by blast
qed

text \<open>\<^bold>\<open>C9.\<close> On valid conditions the analyze endpoint raises no exception; the recommended
  bandwidth is 1.5 times the current one when the score is below 60 and the current one
  otherwise; the potential improvement is \<open>(recommended / current - 1) * 100\<close> capped at 100;
  both are given by the input bandwidth and the score alone.\<close>

theorem analyze_bandwidth_heuristic:
  assumes "valid_conditions c"
  shows "\<exists>r. analyze_network_conditions now c = Inr r
     \<and> analysis_results r = analyze_network c
     \<and> current_bandwidth (optimization r) = bandwidth c
     \<and> recommended_bandwidth (optimization r)
         = (if network_score (analyze_network c) < 60 then bandwidth c * 1.5 else bandwidth c)
     \<and> potential_improvement (optimization r)
         = min ((recommended_bandwidth (optimization r) / bandwidth c - 1) * 100) 100
     \<and> potential_improvement (optimization r) \<le> 100"
proof -
  have nz: "bandwidth c \<noteq> 0" using assms by (simp add: valid_conditions_def)
  show ?thesis
    unfolding analyze_network_conditions_def Let_def
    using nz by (simp add: py_truediv_def)
qed

text \<open>At score 0 the recommendation is 1.5 times the bandwidth, an improvement of 50; at
  score 100 the bandwidth is kept, an improvement of 0.\<close>

theorem analyze_bandwidth_heuristic_witness:
  "valid_conditions example_degenerate
   \<and> (\<exists>r. analyze_network_conditions ''2026-01-01T00:00:00'' example_degenerate = Inr r
        \<and> recommended_bandwidth (optimization r) = 3 / 2
        \<and> potential_improvement (optimization r) = 50)
   \<and> valid_conditions example_capped
   \<and> (\<exists>r. analyze_network_conditions ''2026-01-01T00:00:00'' example_capped = Inr r
        \<and> recommended_bandwidth (optimization r) = 10
        \<and> potential_improvement (optimization r) = 0)"
proof -
  from analyze_bandwidth_heuristic [OF example_degenerate_valid, of "''2026-01-01T00:00:00''"]
  have a: "\<exists>r. analyze_network_conditions ''2026-01-01T00:00:00'' example_degenerate = Inr r
        \<and> recommended_bandwidth (optimization r) = 3 / 2
        \<and> potential_improvement (optimization r) = 50"
    unfolding example_degenerate_score by (auto simp: example_degenerate_def)
  from analyze_bandwidth_heuristic [OF example_capped_valid, of "''2026-01-01T00:00:00''"]
  have b: "\<exists>r. analyze_network_conditions ''2026-01-01T00:00:00'' example_capped = Inr r
        \<and> recommended_bandwidth (optimization r) = 10
        \<and> potential_improvement (optimization r) = 0"
    unfolding example_capped_score by (auto simp: example_capped_def)
  show ?thesis using a b example_degenerate_valid example_capped_valid by blast
qed

text \<open>\<^bold>\<open>C10.\<close> In exact arithmetic, on valid conditions the fourth candidate is the input
  bandwidth itself; the score does not decrease when only the bandwidth increases; hence the
  optimal predicted score is at least the current score, and the quality improvement and the
  congestion reduction are not negative.\<close>

theorem optimum_not_below_current:
  assumes "valid_conditions c"
  shows "\<exists>r. optimize_network now c = Inr r
     \<and> step_bandwidth (step_by_step_optimization r ! 3) = bandwidth c
     \<and> predicted_score (step_by_step_optimization r ! 3) = network_score (analyze_network c)
     \<and> (\<forall>b1 b2. b1 \<le> b2 \<longrightarrow>
           network_score (analyze_network (c\<lparr>bandwidth := b1\<rparr>))
             \<le> network_score (analyze_network (c\<lparr>bandwidth := b2\<rparr>)))
     \<and> current_score (current_conditions r) = network_score (analyze_network c)
     \<and> current_score (current_conditions r) \<le> opt_predicted_score (optimal_configuration r)
     \<and> 0 \<le> quality_improvement (performance_metrics (optimal_configuration r))
     \<and> 0 \<le> congestion_reduction (optimal_configuration r)"
proof -
  let ?cands = "linspace (bandwidth c * 0.5) (bandwidth c * 2.0) 10"
  from optimize_network_result [OF assms, of now]
  obtain r k where rk: "optimize_network now c = Inr r"
     "step_by_step_optimization r = map (step_at c) ?cands"
     "\<forall>j < 10. predicted_score (step_by_step_optimization r ! j)
                     \<le> predicted_score (step_by_step_optimization r ! k)"
     "opt_predicted_score (optimal_configuration r)
         = predicted_score (step_by_step_optimization r ! k)"
     "congestion_reduction (optimal_configuration r)
         = (100 - network_score (analyze_network c))
           - (100 - predicted_score (step_by_step_optimization r ! k))"
     "quality_improvement (performance_metrics (optimal_configuration r))
         = predicted_score (step_by_step_optimization r ! k) - network_score (analyze_network c)"
     "current_score (current_conditions r) = network_score (analyze_network c)"
    by blast
  have s3: "step_by_step_optimization r ! 3 = step_at c (bandwidth c)"
    unfolding rk(2) candidates_explicit by simp
  have b3: "step_bandwidth (step_by_step_optimization r ! 3) = bandwidth c"
    unfolding s3 by (rule step_at_bandwidth)
  have p3: "predicted_score (step_by_step_optimization r ! 3) = network_score (analyze_network c)"
    unfolding s3 by (simp add: step_at_score)
  have "predicted_score (step_by_step_optimization r ! 3)
          \<le> predicted_score (step_by_step_optimization r ! k)"
    using rk(3) by simp
  then have le: "network_score (analyze_network c)
                   \<le> predicted_score (step_by_step_optimization r ! k)"
    unfolding p3 .
  have mono: "\<forall>b1 b2. b1 \<le> b2 \<longrightarrow>
           network_score (analyze_network (c\<lparr>bandwidth := b1\<rparr>))
             \<le> network_score (analyze_network (c\<lparr>bandwidth := b2\<rparr>))"
    using score_mono_bandwidth by blast
  have q: "0 \<le> quality_improvement (performance_metrics (optimal_configuration r))"
    unfolding rk(6) using le by simp
  have g: "0 \<le> congestion_reduction (optimal_configuration r)"
    unfolding rk(5) using le by simp
  have cur: "current_score (current_conditions r) \<le> opt_predicted_score (optimal_configuration r)"
    unfolding rk(4) rk(7) by (rule le)
  show ?thesis using rk(1) b3 p3 mono rk(7) cur q g by blast
qed

text \<open>For the input of bandwidth 4 and score 70 the optimum scores 80: an improvement of 10.\<close>

theorem optimum_not_below_current_witness:
  "valid_conditions example_mid
   \<and> (\<exists>r. optimize_network ''2026-01-01T00:00:00'' example_mid = Inr r
        \<and> step_bandwidth (step_by_step_optimization r ! 3) = 4
        \<and> current_score (current_conditions r) = 70
        \<and> opt_predicted_score (optimal_configuration r) = 80
        \<and> current_score (current_conditions r) \<le> opt_predicted_score (optimal_configuration r)
        \<and> quality_improvement (performance_metrics (optimal_configuration r)) = 10
        \<and> congestion_reduction (optimal_configuration r) = 10)"
proof -
  from optimum_not_below_current [OF example_mid_valid, of "''2026-01-01T00:00:00''"]
  obtain r where r: "optimize_network ''2026-01-01T00:00:00'' example_mid = Inr r"
    "step_bandwidth (step_by_step_optimization r ! 3) = bandwidth example_mid"
    "current_score (current_conditions r) \<le> opt_predicted_score (optimal_configuration r)"
    by blast
  from example_mid_optimum [of "''2026-01-01T00:00:00''"] r(1)
  have ex: "opt_predicted_score (optimal_configuration r) = 80"
     "congestion_reduction (optimal_configuration r) = 10"
     "quality_improvement (performance_metrics (optimal_configuration r)) = 10"
     "current_score (current_conditions r) = 70"
    by auto
  have b3: "step_bandwidth (step_by_step_optimization r ! 3) = 4"
    using r(2) by (simp add: example_mid_def)
  show ?thesis using example_mid_valid r(1,3) b3 ex by blast
qed

section \<open>Properties in double arithmetic\<close>

subsection \<open>Rounding\<close>

lemma pow2_powr: "pow2 e = 2 powr (real_of_int e)"
proof (cases "0 \<le> e")
  case True
  then show ?thesis by (simp add: pow2_def powr_realpow [symmetric])
next
  case False
  then have "2 powr (real_of_int e) = 1 / 2 powr (real (nat (- e)))"
    by (simp add: powr_minus_divide [symmetric])
  then show ?thesis using False by (simp add: pow2_def powr_realpow [symmetric])
qed

lemma pow2_pos: "0 < pow2 e"
  by (simp add: pow2_powr)

lemma pow2_add: "pow2 (a + b) = pow2 a * pow2 b"
  by (simp add: pow2_powr powr_add)

lemma pow2_less_iff: "pow2 a < pow2 b \<longleftrightarrow> a < b"
  by (simp add: pow2_powr)

lemma pow2_le_iff: "pow2 a \<le> pow2 b \<longleftrightarrow> a \<le> b"
  by (simp add: pow2_powr)

lemma denorm_min_pos: "0 < denorm_min"
  by (simp add: denorm_min_def pow2_pos)

text \<open>The search finds the binade of its argument.\<close>

lemma find_exp_binade:
  assumes "e0 \<le> e" "e \<le> 1024" "pow2 e \<le> a" "a < pow2 (e + 1)"
  shows "find_exp a e0 = e"
  using assms
proof (induction "nat (e - e0)" arbitrary: e0)
  case 0
  then have "e0 = e" by simp
  then show ?case using "0.prems" by (subst find_exp.simps) simp
next
  case (Suc n)
  then have lt: "e0 < e" by linarith
  then have "pow2 (e0 + 1) \<le> pow2 e" by (simp add: pow2_le_iff)
  then have "\<not> a < pow2 (e0 + 1)" using Suc.prems(3) by linarith
  moreover have "\<not> 1024 \<le> e0" using lt Suc.prems(2) by linarith
  moreover have "find_exp a (e0 + 1) = e"
    using Suc.hyps(2) lt Suc.prems by (intro Suc.hyps(1)) linarith+
  ultimately show ?case by (subst find_exp.simps) simp
qed

lemma find_exp_subnormal:
  assumes "a < pow2 (- 1021)"
  shows "find_exp a (- 1022) = - 1022"
  using assms by (subst find_exp.simps) simp

lemma round_half_even_bounds:
  "of_int (round_half_even q) \<le> q + 1/2 \<and> q - 1/2 \<le> of_int (round_half_even q)"
  unfolding round_half_even_def Let_def by (auto; linarith)

text \<open>Rounding within a known binade: to the nearest multiple of \<open>2 ^ (e - 52)\<close>.\<close>

lemma round_double_binade:
  assumes "- 1022 \<le> e" "e \<le> 1023" "pow2 e \<le> a" "a < pow2 (e + 1)"
    and "of_int (round_half_even (a / pow2 (e - 52))) * pow2 (e - 52) < pow2 1024"
  shows "round_double a = Finite (of_int (round_half_even (a / pow2 (e - 52))) * pow2 (e - 52))"
proof -
  have pos: "0 < a" using assms(3) pow2_pos [of e] by linarith
  have fe: "find_exp a (- 1022) = e"
    using assms by (intro find_exp_binade) auto
  show ?thesis
    using pos fe assms(5) by (simp add: round_double_def Let_def)
qed

text \<open>Rounding below \<open>2 ^ -1021\<close>: to the nearest multiple of the smallest positive double.\<close>

lemma round_double_subnormal:
  assumes "0 < q" "q < 2 ^ 53"
  shows "round_double (q * denorm_min) = Finite (of_int (round_half_even q) * denorm_min)"
proof -
  note dm = denorm_min_pos
  have "pow2 (- 1021) = pow2 53 * pow2 (- 1074)" by (simp add: pow2_add [symmetric])
  also have "pow2 53 = 2 ^ 53" by (simp add: pow2_def)
  finally have p: "pow2 (- 1021) = 2 ^ 53 * denorm_min" by (simp add: denorm_min_def)
  have lt: "q * denorm_min < pow2 (- 1021)" unfolding p using assms(2) dm by simp
  have pos: "0 < q * denorm_min" using assms(1) dm by simp
  have fe: "find_exp (q * denorm_min) (- 1022) = - 1022"
    by (rule find_exp_subnormal [OF lt])
  have "of_int (round_half_even q) \<le> q + 1/2" using round_half_even_bounds by blast
  also have "\<dots> < 2 ^ 54" using assms(2) by simp
  finally have "of_int (round_half_even q) * denorm_min < 2 ^ 54 * denorm_min"
    using dm by simp
  also have "2 ^ 54 * denorm_min = pow2 54 * pow2 (- 1074)"
    by (simp add: denorm_min_def pow2_def)
  also have "\<dots> = pow2 (- 1020)" by (simp add: pow2_add [symmetric])
  also have "\<dots> < pow2 1024" by (simp add: pow2_less_iff)
  finally have small: "\<not> pow2 1024 \<le> of_int (round_half_even q) * denorm_min" by simp
  have ulp: "pow2 (- 1022 - 52) = denorm_min" by (simp add: denorm_min_def)
  have q: "q * denorm_min / denorm_min = q" using dm by simp
  have ab: "\<bar>q * denorm_min\<bar> = q * denorm_min" using pos by simp
  have nz: "q * denorm_min \<noteq> 0" using assms(1) dm by simp
  show ?thesis
    unfolding round_double_def Let_def ab fe ulp q
    using pos nz small by simp
qed

lemma round_double_0: "round_double 0 = Finite 0"
  by (simp add: round_double_def)

text \<open>Rounding from \<open>2 ^ 1024\<close> upwards overflows.\<close>

lemma find_exp_overflow:
  assumes "e0 \<le> 1024" "pow2 1024 \<le> a"
  shows "find_exp a e0 = 1024"
  using assms
proof (induction "nat (1024 - e0)" arbitrary: e0)
  case 0
  then have "e0 = 1024" by simp
  then show ?case by (subst find_exp.simps) simp
next
  case (Suc n)
  then have lt: "e0 < 1024" by linarith
  then have "pow2 (e0 + 1) \<le> pow2 1024" by (simp add: pow2_le_iff)
  then have "\<not> a < pow2 (e0 + 1)" using Suc.prems(2) by linarith
  moreover have "\<not> 1024 \<le> e0" using lt by linarith
  moreover have "find_exp a (e0 + 1) = 1024"
    using Suc.hyps(2) lt Suc.prems by (intro Suc.hyps(1)) linarith+
  ultimately show ?case by (subst find_exp.simps) simp
qed

lemma round_double_overflow:
  assumes "pow2 1024 \<le> a"
  shows "round_double a = PosInf"
proof -
  have pos: "0 < a" using assms pow2_pos [of 1024] by linarith
  have fe: "find_exp a (- 1022) = 1024" using assms by (intro find_exp_overflow) auto
  have ulp: "0 < pow2 972" by (rule pow2_pos)
  have split: "pow2 1024 = pow2 52 * pow2 972" by (simp add: pow2_add [symmetric])
  have p52: "pow2 52 = 2 ^ 52" by (simp add: pow2_def)
  have "2 ^ 52 * pow2 972 \<le> a" using assms unfolding split p52 .
  then have q: "2 ^ 52 \<le> a / pow2 972" using ulp by (simp add: pos_le_divide_eq)
  have "a / pow2 972 - 1/2 \<le> of_int (round_half_even (a / pow2 972))"
    using round_half_even_bounds by blast
  with q have "(2 ^ 52 :: real) - 1/2 \<le> of_int (round_half_even (a / pow2 972))" by linarith
  then have "real_of_int (2 ^ 52 - 1) < of_int (round_half_even (a / pow2 972))" by simp
  then have "2 ^ 52 - 1 < round_half_even (a / pow2 972)" by (simp only: of_int_less_iff)
  then have "(2 ^ 52 :: real) \<le> of_int (round_half_even (a / pow2 972))" by simp
  then have "2 ^ 52 * pow2 972 \<le> of_int (round_half_even (a / pow2 972)) * pow2 972"
    using ulp by simp
  then have big: "pow2 1024 \<le> of_int (round_half_even (a / pow2 972)) * pow2 972"
    unfolding split p52 .
  have ab: "\<bar>a\<bar> = a" using pos by simp
  have e: "(1024::int) - 52 = 972" by simp
  show ?thesis
    unfolding round_double_def Let_def ab fe e using pos big by simp
qed

subsection \<open>The optimizer in doubles: structure\<close>

lemma step_at_fp_bandwidth: "fp_step_bandwidth (step_at_fp c bw) = bw"
  by (simp add: step_at_fp_def Let_def)

lemma linspace_fp_10:
  "linspace_fp start stop 10 =
     (map (\<lambda>v. fp_add v start)
        (if fp_div (fp_sub stop start) (Finite 9) = Finite 0
         then map (\<lambda>v. fp_mul (fp_div v (Finite 9)) (fp_sub stop start))
                (map (\<lambda>i. Finite (real i)) [0..<10])
         else map (\<lambda>v. fp_mul v (fp_div (fp_sub stop start) (Finite 9)))
                (map (\<lambda>i. Finite (real i)) [0..<10])))
     [9 := stop]"
  by (simp add: linspace_fp_def Let_def)

lemma linspace_fp_10_length: "length (linspace_fp start stop 10) = 10"
  unfolding linspace_fp_10 by simp

lemma linspace_fp_10_last: "linspace_fp start stop 10 ! 9 = stop"
  unfolding linspace_fp_10 by simp

text \<open>The loop in doubles: a candidate that is not greater than zero (zero, negative or NaN)
  fails the validation of the conditions built from it; if every candidate is greater than
  zero, valid conditions give one step per candidate.\<close>

lemma optimization_loop_fp_valid:
  "valid_conditions_fp c \<Longrightarrow> \<forall>bw \<in> set bws. fp_less (Finite 0) bw \<Longrightarrow>
     optimization_loop_fp c bws acc = Inr (acc @ map (step_at_fp c) bws)"
proof (induction bws arbitrary: acc)
  case Nil
  then show ?case by simp
next
  case (Cons bw bws)
  then have v: "valid_conditions_fp (c\<lparr>fp_bandwidth := bw\<rparr>)"
    by (simp add: valid_conditions_fp_def)
  from Cons have rest: "\<forall>bw \<in> set bws. fp_less (Finite 0) bw" by simp
  show ?case
    using v Cons.IH [OF Cons.prems(1) rest]
    by (simp add: NetworkConditions_init_fp_def Let_def step_at_fp_def)
qed

lemma optimization_loop_fp_invalid:
  "\<exists>bw \<in> set bws. \<not> fp_less (Finite 0) bw \<Longrightarrow>
     optimization_loop_fp c bws acc = Inl ValidationError"
proof (induction bws arbitrary: acc)
  case Nil
  then show ?case by simp
next
  case (Cons bw bws)
  show ?case
  proof (cases "valid_conditions_fp (c\<lparr>fp_bandwidth := bw\<rparr>)")
    case False
    then show ?thesis by (simp add: NetworkConditions_init_fp_def Let_def)
  next
    case True
    then have "fp_less (Finite 0) bw" by (simp add: valid_conditions_fp_def)
    then have "\<exists>bw \<in> set bws. \<not> fp_less (Finite 0) bw" using Cons.prems by auto
    then show ?thesis
      using True Cons.IH by (simp add: NetworkConditions_init_fp_def Let_def)
  qed
qed

lemma max_from_fp_mem: "max_from_fp key best xs \<in> set (best # xs)"
  by (induction xs arbitrary: best) (auto split: if_splits)

lemma py_max_by_fp_mem:
  "xs \<noteq> [] \<Longrightarrow> \<exists>m \<in> set xs. py_max_by_fp key xs = Inr m"
  using max_from_fp_mem [of key "hd xs" "tl xs"]
  by (cases xs) (auto simp: py_max_by_fp_def)

lemma round_half_even_of_int: "round_half_even (of_int n) = n"
  by (simp add: round_half_even_def)

lemma round_double_tiny:
  assumes "0 \<le> q" "q < 2 ^ 53"
  shows "round_double (q * denorm_min) = Finite (of_int (round_half_even q) * denorm_min)"
proof (cases "q = 0")
  case True
  then show ?thesis by (simp add: round_double_0 round_half_even_def)
next
  case False
  then show ?thesis using assms by (intro round_double_subnormal) auto
qed

text \<open>Operations whose exact result is \<open>q\<close> times the smallest positive double.\<close>

lemma fp_mul_tiny:
  assumes "x * y = q * denorm_min" "0 \<le> q" "q < 2 ^ 53" "round_half_even q = n"
  shows "fp_mul (Finite x) (Finite y) = Finite (of_int n * denorm_min)"
  using round_double_tiny [OF assms(2,3)] assms(1,4) by simp

lemma fp_add_tiny:
  assumes "x + y = q * denorm_min" "0 \<le> q" "q < 2 ^ 53" "round_half_even q = n"
  shows "fp_add (Finite x) (Finite y) = Finite (of_int n * denorm_min)"
  using round_double_tiny [OF assms(2,3)] assms(1,4) by simp

lemma fp_sub_tiny:
  assumes "x - y = q * denorm_min" "0 \<le> q" "q < 2 ^ 53" "round_half_even q = n"
  shows "fp_sub (Finite x) (Finite y) = Finite (of_int n * denorm_min)"
  using round_double_tiny [OF assms(2,3)] assms(1,4) by (simp add: fp_sub_def)

lemma fp_div_tiny:
  assumes "y \<noteq> 0" "x / y = q * denorm_min" "0 \<le> q" "q < 2 ^ 53" "round_half_even q = n"
  shows "fp_div (Finite x) (Finite y) = Finite (of_int n * denorm_min)"
  using round_double_tiny [OF assms(3,4)] assms(1,2,5) by simp

text \<open>The doubles nearest to the ninths, as \<^verbatim>\<open>arange(10) / 9\<close> computes them.\<close>

lemma ninth_1: "fp_div (Finite 1) (Finite 9) = Finite (2001599834386887 / 2 ^ 54)"
proof -
  have "round_double (1 / 9)
          = Finite (of_int (round_half_even ((1 / 9) / pow2 (- 4 - 52))) * pow2 (- 4 - 52))"
    by (rule round_double_binade) (simp_all add: pow2_def round_half_even_def)
  then show ?thesis by (simp add: pow2_def round_half_even_def)
qed

lemma ninth_2: "fp_div (Finite 2) (Finite 9) = Finite (2001599834386887 / 2 ^ 53)"
proof -
  have "round_double (2 / 9)
          = Finite (of_int (round_half_even ((2 / 9) / pow2 (- 3 - 52))) * pow2 (- 3 - 52))"
    by (rule round_double_binade) (simp_all add: pow2_def round_half_even_def)
  then show ?thesis by (simp add: pow2_def round_half_even_def)
qed

lemma ninth_0: "fp_div (Finite 0) (Finite 9) = Finite 0"
  by (simp add: round_double_0)

lemma ninth_3: "fp_div (Finite 3) (Finite 9) = Finite (6004799503160661 / 2 ^ 54)"
proof -
  have "round_double (3 / 9)
          = Finite (of_int (round_half_even ((3 / 9) / pow2 (- 2 - 52))) * pow2 (- 2 - 52))"
    by (rule round_double_binade) (simp_all add: pow2_def round_half_even_def)
  then show ?thesis by (simp add: pow2_def round_half_even_def)
qed

lemma ninth_4: "fp_div (Finite 4) (Finite 9) = Finite (2001599834386887 / 2 ^ 52)"
proof -
  have "round_double (4 / 9)
          = Finite (of_int (round_half_even ((4 / 9) / pow2 (- 2 - 52))) * pow2 (- 2 - 52))"
    by (rule round_double_binade) (simp_all add: pow2_def round_half_even_def)
  then show ?thesis by (simp add: pow2_def round_half_even_def)
qed

lemma ninth_5: "fp_div (Finite 5) (Finite 9) = Finite (2501999792983609 / 2 ^ 52)"
proof -
  have "round_double (5 / 9)
          = Finite (of_int (round_half_even ((5 / 9) / pow2 (- 1 - 52))) * pow2 (- 1 - 52))"
    by (rule round_double_binade) (simp_all add: pow2_def round_half_even_def)
  then show ?thesis by (simp add: pow2_def round_half_even_def)
qed

lemma ninth_6: "fp_div (Finite 6) (Finite 9) = Finite (6004799503160661 / 2 ^ 53)"
proof -
  have "round_double (6 / 9)
          = Finite (of_int (round_half_even ((6 / 9) / pow2 (- 1 - 52))) * pow2 (- 1 - 52))"
    by (rule round_double_binade) (simp_all add: pow2_def round_half_even_def)
  then show ?thesis by (simp add: pow2_def round_half_even_def)
qed

lemma ninth_7: "fp_div (Finite 7) (Finite 9) = Finite (7005599420354105 / 2 ^ 53)"
proof -
  have "round_double (7 / 9)
          = Finite (of_int (round_half_even ((7 / 9) / pow2 (- 1 - 52))) * pow2 (- 1 - 52))"
    by (rule round_double_binade) (simp_all add: pow2_def round_half_even_def)
  then show ?thesis by (simp add: pow2_def round_half_even_def)
qed

lemma ninth_8: "fp_div (Finite 8) (Finite 9) = Finite (2001599834386887 / 2 ^ 51)"
proof -
  have "round_double (8 / 9)
          = Finite (of_int (round_half_even ((8 / 9) / pow2 (- 1 - 52))) * pow2 (- 1 - 52))"
    by (rule round_double_binade) (simp_all add: pow2_def round_half_even_def)
  then show ?thesis by (simp add: pow2_def round_half_even_def)
qed

text \<open>An element of the grid in the branch \<^verbatim>\<open>step == 0\<close>, for a \<open>delta\<close> of \<open>d\<close> and a
  \<open>start\<close> of \<open>t\<close> times the smallest positive double.\<close>

lemma zero_branch_elem:
  assumes "fp_div (Finite i) (Finite 9) = Finite f"
    and "0 \<le> f * d" "f * d < 2 ^ 53" "round_half_even (f * d) = k"
    and "0 \<le> k + t" "k + t < 2 ^ 53"
  shows "fp_add (fp_mul (fp_div (Finite i) (Finite 9)) (Finite (d * denorm_min)))
           (Finite (of_int t * denorm_min))
         = Finite (of_int (k + t) * denorm_min)"
proof -
  have m: "fp_mul (Finite f) (Finite (d * denorm_min)) = Finite (of_int k * denorm_min)"
    by (rule fp_mul_tiny [of f "d * denorm_min" "f * d" k]) (use assms in simp_all)
  have a: "fp_add (Finite (of_int k * denorm_min)) (Finite (of_int t * denorm_min))
             = Finite (of_int (k + t) * denorm_min)"
  proof (rule fp_add_tiny [of _ _ "of_int (k + t)"])
    show "of_int k * denorm_min + of_int t * denorm_min = real_of_int (k + t) * denorm_min"
      by (simp add: algebra_simps)
    show "0 \<le> real_of_int (k + t)" using assms(5) by simp
    show "real_of_int (k + t) < 2 ^ 53" using assms(6) by simp
    show "round_half_even (real_of_int (k + t)) = k + t" by (rule round_half_even_of_int)
  qed
  show ?thesis unfolding assms(1) m a ..
qed

lemma linspace_fp_10_nth:
  assumes "i < 9"
  shows "linspace_fp start stop 10 ! i =
           fp_add (if fp_div (fp_sub stop start) (Finite 9) = Finite 0
                   then fp_mul (fp_div (Finite (real i)) (Finite 9)) (fp_sub stop start)
                   else fp_mul (Finite (real i)) (fp_div (fp_sub stop start) (Finite 9)))
                  start"
  unfolding linspace_fp_10 using assms by simp

subsection \<open>The grid for the two smallest bandwidths\<close>

text \<open>Bandwidth \<^verbatim>\<open>5e-324\<close>: \<open>min_bw\<close> underflows to zero, and so does \<open>step\<close>; the first
  candidate is zero.\<close>

lemma tiny1_min_bw: "fp_mul (Finite (1 * denorm_min)) (Finite 0.5) = Finite 0"
  using fp_mul_tiny [of "1 * denorm_min" "0.5" "1 / 2" 0] by (simp add: round_half_even_def)

lemma tiny1_max_bw: "fp_mul (Finite (1 * denorm_min)) (Finite 2.0) = Finite (2 * denorm_min)"
  using fp_mul_tiny [of "1 * denorm_min" "2.0" 2 2] by (simp add: round_half_even_def)

lemma tiny1_first_candidate:
  "linspace_fp (fp_mul (Finite (1 * denorm_min)) (Finite 0.5))
               (fp_mul (Finite (1 * denorm_min)) (Finite 2.0)) 10 ! 0 = Finite 0"
proof -
  have delta: "fp_sub (Finite (2 * denorm_min)) (Finite 0) = Finite (2 * denorm_min)"
    using fp_sub_tiny [of "2 * denorm_min" 0 2 2] by (simp add: round_half_even_def)
  have step: "fp_div (Finite (2 * denorm_min)) (Finite 9) = Finite 0"
    using fp_div_tiny [of 9 "2 * denorm_min" "2 / 9" 0] by (simp add: round_half_even_def)
  have e0: "fp_add (fp_mul (fp_div (Finite 0) (Finite 9)) (Finite (2 * denorm_min))) (Finite 0)
              = Finite 0"
    using zero_branch_elem [OF ninth_0, of 2 0 0] by (simp add: round_half_even_def)
  have "linspace_fp (Finite 0) (Finite (2 * denorm_min)) 10 ! 0 = Finite 0"
    using linspace_fp_10_nth [of 0 "Finite 0" "Finite (2 * denorm_min)"]
    unfolding delta step using e0 by simp
  then show ?thesis unfolding tiny1_min_bw tiny1_max_bw .
qed

text \<open>Bandwidth \<^verbatim>\<open>1e-323\<close>: \<open>step\<close> underflows to zero, numpy takes its branch for
  \<^verbatim>\<open>step == 0\<close>, and neighbouring candidates coincide.\<close>

lemma tiny2_min_bw: "fp_mul (Finite (2 * denorm_min)) (Finite 0.5) = Finite denorm_min"
  using fp_mul_tiny [of "2 * denorm_min" "0.5" 1 1] by (simp add: round_half_even_def)

lemma tiny2_max_bw: "fp_mul (Finite (2 * denorm_min)) (Finite 2.0) = Finite (4 * denorm_min)"
  using fp_mul_tiny [of "2 * denorm_min" "2.0" 4 4] by (simp add: round_half_even_def)

lemma tiny2_candidates:
  "linspace_fp (fp_mul (Finite (2 * denorm_min)) (Finite 0.5))
               (fp_mul (Finite (2 * denorm_min)) (Finite 2.0)) 10
     = [Finite denorm_min, Finite denorm_min,
        Finite (2 * denorm_min), Finite (2 * denorm_min), Finite (2 * denorm_min),
        Finite (3 * denorm_min), Finite (3 * denorm_min), Finite (3 * denorm_min),
        Finite (4 * denorm_min), Finite (4 * denorm_min)]"
proof -
  have delta: "fp_sub (Finite (4 * denorm_min)) (Finite denorm_min) = Finite (3 * denorm_min)"
    using fp_sub_tiny [of "4 * denorm_min" denorm_min 3 3] by (simp add: round_half_even_def)
  have step: "fp_div (Finite (3 * denorm_min)) (Finite 9) = Finite 0"
    using fp_div_tiny [of 9 "3 * denorm_min" "1 / 3" 0] by (simp add: round_half_even_def)
  have e0: "fp_add (fp_mul (fp_div (Finite 0) (Finite 9)) (Finite (3 * denorm_min)))
                  (Finite denorm_min) = Finite denorm_min"
    using zero_branch_elem [OF ninth_0, of 3 0 1] by (simp add: round_half_even_def)
  have e1: "fp_add (fp_mul (fp_div (Finite 1) (Finite 9)) (Finite (3 * denorm_min)))
                  (Finite denorm_min) = Finite denorm_min"
    using zero_branch_elem [OF ninth_1, of 3 0 1] by (simp add: round_half_even_def)
  have e2: "fp_add (fp_mul (fp_div (Finite 2) (Finite 9)) (Finite (3 * denorm_min)))
                  (Finite denorm_min) = Finite (2 * denorm_min)"
    using zero_branch_elem [OF ninth_2, of 3 1 1] by (simp add: round_half_even_def)
  have e3: "fp_add (fp_mul (fp_div (Finite 3) (Finite 9)) (Finite (3 * denorm_min)))
                  (Finite denorm_min) = Finite (2 * denorm_min)"
    using zero_branch_elem [OF ninth_3, of 3 1 1] by (simp add: round_half_even_def)
  have e4: "fp_add (fp_mul (fp_div (Finite 4) (Finite 9)) (Finite (3 * denorm_min)))
                  (Finite denorm_min) = Finite (2 * denorm_min)"
    using zero_branch_elem [OF ninth_4, of 3 1 1] by (simp add: round_half_even_def)
  have e5: "fp_add (fp_mul (fp_div (Finite 5) (Finite 9)) (Finite (3 * denorm_min)))
                  (Finite denorm_min) = Finite (3 * denorm_min)"
    using zero_branch_elem [OF ninth_5, of 3 2 1] by (simp add: round_half_even_def)
  have e6: "fp_add (fp_mul (fp_div (Finite 6) (Finite 9)) (Finite (3 * denorm_min)))
                  (Finite denorm_min) = Finite (3 * denorm_min)"
    using zero_branch_elem [OF ninth_6, of 3 2 1] by (simp add: round_half_even_def)
  have e7: "fp_add (fp_mul (fp_div (Finite 7) (Finite 9)) (Finite (3 * denorm_min)))
                  (Finite denorm_min) = Finite (3 * denorm_min)"
    using zero_branch_elem [OF ninth_7, of 3 2 1] by (simp add: round_half_even_def)
  have e8: "fp_add (fp_mul (fp_div (Finite 8) (Finite 9)) (Finite (3 * denorm_min)))
                  (Finite denorm_min) = Finite (4 * denorm_min)"
    using zero_branch_elem [OF ninth_8, of 3 3 1] by (simp add: round_half_even_def)
  have "linspace_fp (Finite denorm_min) (Finite (4 * denorm_min)) 10
     = [Finite denorm_min, Finite denorm_min,
        Finite (2 * denorm_min), Finite (2 * denorm_min), Finite (2 * denorm_min),
        Finite (3 * denorm_min), Finite (3 * denorm_min), Finite (3 * denorm_min),
        Finite (4 * denorm_min), Finite (4 * denorm_min)]"
    unfolding linspace_fp_10 delta step
    by (simp add: upt_10 e0 e1 e2 e3 e4 e5 e6 e7 e8
             del: fp_add.simps fp_mul.simps fp_div.simps)
  then show ?thesis unfolding tiny2_min_bw tiny2_max_bw .
qed

text \<open>The two outcomes of the optimizer in doubles on valid conditions: a candidate that is
  not greater than zero ends the run in the validation error; otherwise the run returns one
  step per candidate, the optimal configuration is one of the steps, and both divisions have
  a divisor greater than zero.\<close>

lemma fp_less_0_nonzero: "fp_less (Finite 0) x \<Longrightarrow> x \<noteq> Finite 0"
  by (cases x) auto

lemma optimize_network_fp_invalid_candidate:
  assumes "\<exists>bw \<in> set (linspace_fp (fp_mul (fp_bandwidth c) (Finite 0.5))
                               (fp_mul (fp_bandwidth c) (Finite 2.0)) 10).
             \<not> fp_less (Finite 0) bw"
  shows "optimize_network_fp now c = Inl (HTTPException 500 ValidationError)"
  unfolding optimize_network_fp_def Let_def
  using optimization_loop_fp_invalid [OF assms, of c "[]"] by simp

lemma optimize_network_fp_valid_candidates:
  assumes v: "valid_conditions_fp c"
    and pos: "\<forall>bw \<in> set (linspace_fp (fp_mul (fp_bandwidth c) (Finite 0.5))
                                   (fp_mul (fp_bandwidth c) (Finite 2.0)) 10).
               fp_less (Finite 0) bw"
  shows "\<exists>r. optimize_network_fp now c = Inr r
     \<and> fp_step_by_step_optimization r
         = map (step_at_fp c) (linspace_fp (fp_mul (fp_bandwidth c) (Finite 0.5))
                                           (fp_mul (fp_bandwidth c) (Finite 2.0)) 10)
     \<and> (\<exists>m \<in> set (fp_step_by_step_optimization r).
           fp_opt_bandwidth (fp_optimal_configuration r) = fp_step_bandwidth m
         \<and> fp_opt_predicted_score (fp_optimal_configuration r) = fp_predicted_score m
         \<and> fp_less (Finite 0) (fp_step_bandwidth m)
         \<and> py_truediv_fp (fp_predicted_score m) (fp_step_bandwidth m)
             = Inr (fp_network_efficiency (fp_performance_metrics (fp_optimal_configuration r))))"
proof -
  let ?cands = "linspace_fp (fp_mul (fp_bandwidth c) (Finite 0.5))
                            (fp_mul (fp_bandwidth c) (Finite 2.0)) 10"
  let ?steps = "map (step_at_fp c) ?cands"
  have loop: "optimization_loop_fp c ?cands [] = Inr ?steps"
    using optimization_loop_fp_valid [OF v pos, of "[]"] by simp
  have "length ?steps = 10" by (simp add: linspace_fp_10_length)
  then have ne: "?steps \<noteq> []" by auto
  from py_max_by_fp_mem [OF ne, of fp_predicted_score]
  obtain m where m: "m \<in> set ?steps" "py_max_by_fp fp_predicted_score ?steps = Inr m"
    by blast
  from m(1) obtain bw where bw: "bw \<in> set ?cands" "m = step_at_fp c bw" by auto
  have mpos: "fp_less (Finite 0) (fp_step_bandwidth m)"
    using bw pos by (simp add: step_at_fp_bandwidth)
  then have mnz: "fp_step_bandwidth m \<noteq> Finite 0" by (rule fp_less_0_nonzero)
  have bnz: "fp_bandwidth c \<noteq> Finite 0"
    using v by (intro fp_less_0_nonzero) (simp add: valid_conditions_fp_def)
  show ?thesis
    unfolding optimize_network_fp_def Let_def loop
    using m mpos mnz bnz by (auto simp: py_truediv_fp_def)
qed

subsection \<open>Runs on the two smallest bandwidths\<close>

lemma example_tiny_valid: "0 < n \<Longrightarrow> valid_conditions_fp (example_tiny n)"
  by (simp add: valid_conditions_fp_def example_tiny_def fp_le_def denorm_min_pos)

lemma example_tiny_bandwidth: "fp_bandwidth (example_tiny n) = Finite (n * denorm_min)"
  by (simp add: example_tiny_def)

text \<open>At \<^verbatim>\<open>5e-324\<close> the first candidate is zero and the run ends in the validation error.\<close>

lemma tiny1_run:
  "optimize_network_fp now (example_tiny 1) = Inl (HTTPException 500 ValidationError)"
proof -
  let ?cands = "linspace_fp (fp_mul (fp_bandwidth (example_tiny 1)) (Finite 0.5))
                            (fp_mul (fp_bandwidth (example_tiny 1)) (Finite 2.0)) 10"
  have z: "?cands ! 0 = Finite 0"
    unfolding example_tiny_bandwidth by (rule tiny1_first_candidate)
  have "?cands ! 0 \<in> set ?cands"
    by (intro nth_mem) (simp add: linspace_fp_10_length)
  moreover have "\<not> fp_less (Finite 0) (?cands ! 0)" unfolding z by simp
  ultimately have "\<exists>bw \<in> set ?cands. \<not> fp_less (Finite 0) bw" by blast
  then show ?thesis by (rule optimize_network_fp_invalid_candidate)
qed

text \<open>At \<^verbatim>\<open>1e-323\<close> the run returns ten steps whose bandwidths coincide in groups.\<close>

lemma tiny2_run:
  "\<exists>r. optimize_network_fp now (example_tiny 2) = Inr r
     \<and> fp_step_by_step_optimization r
         = map (step_at_fp (example_tiny 2))
             [Finite denorm_min, Finite denorm_min,
              Finite (2 * denorm_min), Finite (2 * denorm_min), Finite (2 * denorm_min),
              Finite (3 * denorm_min), Finite (3 * denorm_min), Finite (3 * denorm_min),
              Finite (4 * denorm_min), Finite (4 * denorm_min)]"
proof -
  have v: "valid_conditions_fp (example_tiny 2)" by (simp add: example_tiny_valid)
  have c: "linspace_fp (fp_mul (fp_bandwidth (example_tiny 2)) (Finite 0.5))
                       (fp_mul (fp_bandwidth (example_tiny 2)) (Finite 2.0)) 10
     = [Finite denorm_min, Finite denorm_min,
        Finite (2 * denorm_min), Finite (2 * denorm_min), Finite (2 * denorm_min),
        Finite (3 * denorm_min), Finite (3 * denorm_min), Finite (3 * denorm_min),
        Finite (4 * denorm_min), Finite (4 * denorm_min)]"
    unfolding example_tiny_bandwidth by (rule tiny2_candidates)
  have pos: "\<forall>bw \<in> set (linspace_fp (fp_mul (fp_bandwidth (example_tiny 2)) (Finite 0.5))
                       (fp_mul (fp_bandwidth (example_tiny 2)) (Finite 2.0)) 10).
               fp_less (Finite 0) bw"
    unfolding c using denorm_min_pos by simp
  from optimize_network_fp_valid_candidates [OF v pos, of now]
  show ?thesis unfolding c by blast
qed

lemma tiny2_step_bandwidths:
  "map_sum id (map fp_step_bandwidth \<circ> fp_step_by_step_optimization)
     (optimize_network_fp now (example_tiny 2))
     = Inr [Finite denorm_min, Finite denorm_min,
            Finite (2 * denorm_min), Finite (2 * denorm_min), Finite (2 * denorm_min),
            Finite (3 * denorm_min), Finite (3 * denorm_min), Finite (3 * denorm_min),
            Finite (4 * denorm_min), Finite (4 * denorm_min)]"
proof -
  from tiny2_run [of now] obtain r where
    r: "optimize_network_fp now (example_tiny 2) = Inr r"
       "fp_step_by_step_optimization r
         = map (step_at_fp (example_tiny 2))
             [Finite denorm_min, Finite denorm_min,
              Finite (2 * denorm_min), Finite (2 * denorm_min), Finite (2 * denorm_min),
              Finite (3 * denorm_min), Finite (3 * denorm_min), Finite (3 * denorm_min),
              Finite (4 * denorm_min), Finite (4 * denorm_min)]"
    by blast
  show ?thesis unfolding r(1) by (simp add: r(2) step_at_fp_bandwidth)
qed

text \<open>On valid conditions a run in doubles that returns has one step per candidate.\<close>

lemma optimize_network_fp_steps:
  assumes v: "valid_conditions_fp c" and r: "optimize_network_fp now c = Inr r"
  shows "fp_step_by_step_optimization r
           = map (step_at_fp c) (linspace_fp (fp_mul (fp_bandwidth c) (Finite 0.5))
                                             (fp_mul (fp_bandwidth c) (Finite 2.0)) 10)
         \<and> (\<forall>bw \<in> set (linspace_fp (fp_mul (fp_bandwidth c) (Finite 0.5))
                                     (fp_mul (fp_bandwidth c) (Finite 2.0)) 10).
               fp_less (Finite 0) bw)"
proof -
  let ?cands = "linspace_fp (fp_mul (fp_bandwidth c) (Finite 0.5))
                            (fp_mul (fp_bandwidth c) (Finite 2.0)) 10"
  have pos: "\<forall>bw \<in> set ?cands. fp_less (Finite 0) bw"
  proof (rule ccontr)
    assume "\<not> (\<forall>bw \<in> set ?cands. fp_less (Finite 0) bw)"
    then have "\<exists>bw \<in> set ?cands. \<not> fp_less (Finite 0) bw" by blast
    then have "optimize_network_fp now c = Inl (HTTPException 500 ValidationError)"
      by (rule optimize_network_fp_invalid_candidate)
    then show False using r by simp
  qed
  from optimize_network_fp_valid_candidates [OF v pos, of now] r
  have "fp_step_by_step_optimization r = map (step_at_fp c) ?cands" by auto
  then show ?thesis using pos by blast
qed

text \<open>At bandwidth \<open>2 ^ 1023\<close> the product \<open>bandwidth * 2.0\<close> overflows to infinity, \<open>step\<close>
  is infinite or NaN, the first candidate \<open>0 * step + start\<close> is NaN, and the run ends in the
  validation error.\<close>

lemma linspace_fp_inf_first: "linspace_fp start PosInf 10 ! 0 = NaN"
  by (cases start) (simp_all add: linspace_fp_10_nth fp_sub_def)

lemma example_huge_valid: "valid_conditions_fp example_huge"
  by (simp add: valid_conditions_fp_def example_huge_def fp_le_def pow2_pos)

lemma huge_run:
  "optimize_network_fp now example_huge = Inl (HTTPException 500 ValidationError)"
proof -
  let ?cands = "linspace_fp (fp_mul (fp_bandwidth example_huge) (Finite 0.5))
                            (fp_mul (fp_bandwidth example_huge) (Finite 2.0)) 10"
  have "pow2 1024 = pow2 1023 * pow2 1" by (simp add: pow2_add [symmetric])
  also have "pow2 1 = 2" by (simp add: pow2_def)
  finally have "pow2 1024 \<le> pow2 1023 * 2.0" by simp
  then have "round_double (pow2 1023 * 2.0) = PosInf" by (rule round_double_overflow)
  then have stop: "fp_mul (fp_bandwidth example_huge) (Finite 2.0) = PosInf"
    by (simp add: example_huge_def)
  have z: "?cands ! 0 = NaN" unfolding stop by (rule linspace_fp_inf_first)
  have "?cands ! 0 \<in> set ?cands"
    by (intro nth_mem) (simp add: linspace_fp_10_length)
  moreover have "\<not> fp_less (Finite 0) (?cands ! 0)" unfolding z by simp
  ultimately have "\<exists>bw \<in> set ?cands. \<not> fp_less (Finite 0) bw" by blast
  then show ?thesis by (rule optimize_network_fp_invalid_candidate)
qed

text \<open>\<^bold>\<open>C3\<close>, as stated, fails in doubles. At the valid bandwidth \<^verbatim>\<open>5e-324\<close> the product
  \<open>bandwidth * 0.5\<close> is zero, the first candidate fails the validation and the run ends in the
  HTTP 500 error with no step; at the valid bandwidth \<^verbatim>\<open>1e-323\<close> the run returns ten steps
  whose bandwidths are not strictly increasing; at the valid bandwidth \<open>2 ^ 1023\<close> the product
  \<open>bandwidth * 2.0\<close> is infinite, the first candidate is NaN and the run ends in the same
  error.\<close>

theorem candidate_grid_fails_in_doubles:
  "valid_conditions_fp (example_tiny 1)
   \<and> optimize_network_fp ''2026-01-01T00:00:00'' (example_tiny 1)
       = Inl (HTTPException 500 ValidationError)
   \<and> valid_conditions_fp (example_tiny 2)
   \<and> map_sum id (map fp_step_bandwidth \<circ> fp_step_by_step_optimization)
        (optimize_network_fp ''2026-01-01T00:00:00'' (example_tiny 2))
       = Inr [Finite denorm_min, Finite denorm_min,
              Finite (2 * denorm_min), Finite (2 * denorm_min), Finite (2 * denorm_min),
              Finite (3 * denorm_min), Finite (3 * denorm_min), Finite (3 * denorm_min),
              Finite (4 * denorm_min), Finite (4 * denorm_min)]
   \<and> valid_conditions_fp example_huge
   \<and> optimize_network_fp ''2026-01-01T00:00:00'' example_huge
       = Inl (HTTPException 500 ValidationError)"
  using tiny1_run tiny2_step_bandwidths huge_run
  by (simp add: example_tiny_valid example_huge_valid)

text \<open>\<^bold>\<open>C3\<close>, amended. In exact arithmetic, on valid conditions the optimizer returns ten
  steps, the bandwidth of step \<open>i\<close> is \<open>min_bw + i * (max_bw - min_bw) / 9\<close> with
  \<open>min_bw = bandwidth * 0.5\<close> and \<open>max_bw = bandwidth * 2.0\<close>, the bandwidths increase strictly
  from half to twice the input bandwidth, and each step is the one recorded for its candidate
  with the other four fields unchanged. In doubles, on valid conditions the grid has ten
  candidates, the last is \<open>bandwidth * 2.0\<close>, and a run that returns has one step per candidate
  with the other four fields unchanged, every candidate being greater than zero.\<close>

theorem candidate_grid_exact_and_double:
  "(valid_conditions c \<longrightarrow>
      (\<exists>r. optimize_network now c = Inr r
         \<and> length (step_by_step_optimization r) = 10
         \<and> (\<forall>i < 10. step_bandwidth (step_by_step_optimization r ! i)
                        = bandwidth c * 0.5 + real i * (bandwidth c * 2.0 - bandwidth c * 0.5) / 9)
         \<and> (\<forall>i < 10. \<forall>j < 10. i < j \<longrightarrow>
               step_bandwidth (step_by_step_optimization r ! i)
                 < step_bandwidth (step_by_step_optimization r ! j))
         \<and> step_bandwidth (step_by_step_optimization r ! 0) = 0.5 * bandwidth c
         \<and> step_bandwidth (step_by_step_optimization r ! 9) = 2.0 * bandwidth c
         \<and> (\<forall>i < 10. step_by_step_optimization r ! i
                        = step_at c (step_bandwidth (step_by_step_optimization r ! i)))))
   \<and> (valid_conditions_fp d \<longrightarrow>
        length (linspace_fp (fp_mul (fp_bandwidth d) (Finite 0.5))
                            (fp_mul (fp_bandwidth d) (Finite 2.0)) 10) = 10
      \<and> linspace_fp (fp_mul (fp_bandwidth d) (Finite 0.5))
                     (fp_mul (fp_bandwidth d) (Finite 2.0)) 10 ! 9
          = fp_mul (fp_bandwidth d) (Finite 2.0)
      \<and> (\<forall>r. optimize_network_fp now d = Inr r \<longrightarrow>
            fp_step_by_step_optimization r
              = map (step_at_fp d) (linspace_fp (fp_mul (fp_bandwidth d) (Finite 0.5))
                                                (fp_mul (fp_bandwidth d) (Finite 2.0)) 10)
            \<and> (\<forall>bw \<in> set (linspace_fp (fp_mul (fp_bandwidth d) (Finite 0.5))
                                        (fp_mul (fp_bandwidth d) (Finite 2.0)) 10).
                  fp_less (Finite 0) bw)))"
proof -
  have ex: "valid_conditions c \<longrightarrow>
      (\<exists>r. optimize_network now c = Inr r
         \<and> length (step_by_step_optimization r) = 10
         \<and> (\<forall>i < 10. step_bandwidth (step_by_step_optimization r ! i)
                        = bandwidth c * 0.5 + real i * (bandwidth c * 2.0 - bandwidth c * 0.5) / 9)
         \<and> (\<forall>i < 10. \<forall>j < 10. i < j \<longrightarrow>
               step_bandwidth (step_by_step_optimization r ! i)
                 < step_bandwidth (step_by_step_optimization r ! j))
         \<and> step_bandwidth (step_by_step_optimization r ! 0) = 0.5 * bandwidth c
         \<and> step_bandwidth (step_by_step_optimization r ! 9) = 2.0 * bandwidth c
         \<and> (\<forall>i < 10. step_by_step_optimization r ! i
                        = step_at c (step_bandwidth (step_by_step_optimization r ! i))))"
    by (rule impI) (rule optimizer_candidates_exact)
  have len: "length (linspace_fp (fp_mul (fp_bandwidth d) (Finite 0.5))
                            (fp_mul (fp_bandwidth d) (Finite 2.0)) 10) = 10"
    by (rule linspace_fp_10_length)
  have lst: "linspace_fp (fp_mul (fp_bandwidth d) (Finite 0.5))
                     (fp_mul (fp_bandwidth d) (Finite 2.0)) 10 ! 9
          = fp_mul (fp_bandwidth d) (Finite 2.0)"
    by (rule linspace_fp_10_last)
  have st: "\<forall>r. optimize_network_fp now d = Inr r \<longrightarrow>
            fp_step_by_step_optimization r
              = map (step_at_fp d) (linspace_fp (fp_mul (fp_bandwidth d) (Finite 0.5))
                                                (fp_mul (fp_bandwidth d) (Finite 2.0)) 10)
            \<and> (\<forall>bw \<in> set (linspace_fp (fp_mul (fp_bandwidth d) (Finite 0.5))
                                        (fp_mul (fp_bandwidth d) (Finite 2.0)) 10).
                  fp_less (Finite 0) bw)"
    if "valid_conditions_fp d"
    using optimize_network_fp_steps [OF that] by blast
  show ?thesis
    apply (rule conjI [OF ex])
    apply (rule impI)
    apply (rule conjI [OF len])
    apply (rule conjI [OF lst])
    apply (erule st)
    done
qed

text \<open>In exact arithmetic at bandwidth 4: ten steps from 2 to 8, the fourth at
  \<open>2 + 3 * 6 / 9 = 4\<close>. In doubles at bandwidth \<^verbatim>\<open>1e-323\<close>: the run returns ten steps, the
  last at \<^verbatim>\<open>2e-323\<close>, four times the smallest positive double.\<close>

theorem candidate_grid_exact_and_double_witness:
  "valid_conditions example_mid
   \<and> (\<exists>r. optimize_network ''2026-01-01T00:00:00'' example_mid = Inr r
        \<and> length (step_by_step_optimization r) = 10
        \<and> step_bandwidth (step_by_step_optimization r ! 0) = 2
        \<and> step_bandwidth (step_by_step_optimization r ! 3) = 4
        \<and> step_bandwidth (step_by_step_optimization r ! 9) = 8
        \<and> step_bandwidth (step_by_step_optimization r ! 3)
            < step_bandwidth (step_by_step_optimization r ! 9)
        \<and> step_by_step_optimization r ! 3 = step_at example_mid 4)
   \<and> valid_conditions_fp (example_tiny 2)
   \<and> (\<exists>r. optimize_network_fp ''2026-01-01T00:00:00'' (example_tiny 2) = Inr r
        \<and> length (fp_step_by_step_optimization r) = 10
        \<and> fp_step_by_step_optimization r ! 9
            = step_at_fp (example_tiny 2) (Finite (4 * denorm_min)))"
proof -
  note T = candidate_grid_exact_and_double
             [of example_mid "''2026-01-01T00:00:00''" "example_tiny 2"]
  have v2: "valid_conditions_fp (example_tiny 2)" by (simp add: example_tiny_valid)
  from T example_mid_valid
  obtain r where r: "optimize_network ''2026-01-01T00:00:00'' example_mid = Inr r"
    "length (step_by_step_optimization r) = 10"
    "\<forall>i < 10. step_bandwidth (step_by_step_optimization r ! i)
         = bandwidth example_mid * 0.5
           + real i * (bandwidth example_mid * 2.0 - bandwidth example_mid * 0.5) / 9"
    "\<forall>i < 10. \<forall>j < 10. i < j \<longrightarrow>
           step_bandwidth (step_by_step_optimization r ! i)
             < step_bandwidth (step_by_step_optimization r ! j)"
    "step_bandwidth (step_by_step_optimization r ! 0) = 0.5 * bandwidth example_mid"
    "step_bandwidth (step_by_step_optimization r ! 9) = 2.0 * bandwidth example_mid"
    "\<forall>i < 10. step_by_step_optimization r ! i
                    = step_at example_mid (step_bandwidth (step_by_step_optimization r ! i))"
    by blast
  have b0: "step_bandwidth (step_by_step_optimization r ! 0) = 2"
    using r(5) by (simp add: example_mid_def)
  have b9: "step_bandwidth (step_by_step_optimization r ! 9) = 8"
    using r(6) by (simp add: example_mid_def)
  have b3: "step_bandwidth (step_by_step_optimization r ! 3) = 4"
    using r(3) by (simp add: example_mid_def)
  have lt: "step_bandwidth (step_by_step_optimization r ! 3)
            < step_bandwidth (step_by_step_optimization r ! 9)"
    using r(4) by simp
  have s3: "step_by_step_optimization r ! 3 = step_at example_mid 4"
  proof -
    have "(3::nat) < 10" by simp
    then have "step_by_step_optimization r ! 3
                 = step_at example_mid (step_bandwidth (step_by_step_optimization r ! 3))"
      using r(7) by blast
    then show ?thesis unfolding b3 .
  qed
  have exact: "\<exists>r. optimize_network ''2026-01-01T00:00:00'' example_mid = Inr r
        \<and> length (step_by_step_optimization r) = 10
        \<and> step_bandwidth (step_by_step_optimization r ! 0) = 2
        \<and> step_bandwidth (step_by_step_optimization r ! 3) = 4
        \<and> step_bandwidth (step_by_step_optimization r ! 9) = 8
        \<and> step_bandwidth (step_by_step_optimization r ! 3)
            < step_bandwidth (step_by_step_optimization r ! 9)
        \<and> step_by_step_optimization r ! 3 = step_at example_mid 4"
    using r(1,2) b0 b3 b9 lt s3 by blast
  let ?cands = "linspace_fp (fp_mul (fp_bandwidth (example_tiny 2)) (Finite 0.5))
                            (fp_mul (fp_bandwidth (example_tiny 2)) (Finite 2.0)) 10"
  from T v2 have len: "length ?cands = 10"
    and lst: "?cands ! 9 = fp_mul (fp_bandwidth (example_tiny 2)) (Finite 2.0)"
    and st: "\<forall>r. optimize_network_fp ''2026-01-01T00:00:00'' (example_tiny 2) = Inr r \<longrightarrow>
               fp_step_by_step_optimization r = map (step_at_fp (example_tiny 2)) ?cands
               \<and> (\<forall>bw \<in> set ?cands. fp_less (Finite 0) bw)"
    by blast+
  from tiny2_run [of "''2026-01-01T00:00:00''"]
  obtain q where q: "optimize_network_fp ''2026-01-01T00:00:00'' (example_tiny 2) = Inr q"
    by blast
  with st have qs: "fp_step_by_step_optimization q = map (step_at_fp (example_tiny 2)) ?cands"
    by blast
  have ql: "length (fp_step_by_step_optimization q) = 10" unfolding qs using len by simp
  have "fp_step_by_step_optimization q ! 9 = step_at_fp (example_tiny 2) (?cands ! 9)"
    unfolding qs using len by simp
  also have "?cands ! 9 = fp_mul (fp_bandwidth (example_tiny 2)) (Finite 2.0)"
    by (rule lst)
  also have "\<dots> = Finite (4 * denorm_min)"
    unfolding example_tiny_bandwidth by (rule tiny2_max_bw)
  finally have q9: "fp_step_by_step_optimization q ! 9
                      = step_at_fp (example_tiny 2) (Finite (4 * denorm_min))" .
  have double: "\<exists>r. optimize_network_fp ''2026-01-01T00:00:00'' (example_tiny 2) = Inr r
        \<and> length (fp_step_by_step_optimization r) = 10
        \<and> fp_step_by_step_optimization r ! 9
            = step_at_fp (example_tiny 2) (Finite (4 * denorm_min))"
    using q ql q9 by blast
  show ?thesis using example_mid_valid exact v2 double by blast
qed

text \<open>\<^bold>\<open>C8\<close>, as stated, fails in doubles. At the valid bandwidth \<^verbatim>\<open>5e-324\<close> the first
  candidate is \<open>5e-324 * 0.5 = 0.0\<close>, which is not strictly positive; the run ends in the
  HTTP 500 error raised by the validation of that candidate.\<close>

theorem candidate_zero_in_doubles:
  "valid_conditions_fp (example_tiny 1)
   \<and> linspace_fp (fp_mul (fp_bandwidth (example_tiny 1)) (Finite 0.5))
                  (fp_mul (fp_bandwidth (example_tiny 1)) (Finite 2.0)) 10 ! 0 = Finite 0
   \<and> \<not> fp_less (Finite 0)
          (linspace_fp (fp_mul (fp_bandwidth (example_tiny 1)) (Finite 0.5))
                       (fp_mul (fp_bandwidth (example_tiny 1)) (Finite 2.0)) 10 ! 0)
   \<and> optimize_network_fp ''2026-01-01T00:00:00'' (example_tiny 1)
       = Inl (HTTPException 500 ValidationError)"
proof -
  have z: "linspace_fp (fp_mul (fp_bandwidth (example_tiny 1)) (Finite 0.5))
                  (fp_mul (fp_bandwidth (example_tiny 1)) (Finite 2.0)) 10 ! 0 = Finite 0"
    unfolding example_tiny_bandwidth by (rule tiny1_first_candidate)
  have n: "\<not> fp_less (Finite 0)
          (linspace_fp (fp_mul (fp_bandwidth (example_tiny 1)) (Finite 0.5))
                       (fp_mul (fp_bandwidth (example_tiny 1)) (Finite 2.0)) 10 ! 0)"
    unfolding z by simp
  have v: "valid_conditions_fp (example_tiny 1)" by (simp add: example_tiny_valid)
  show ?thesis using v z n tiny1_run by blast
qed

text \<open>\<^bold>\<open>C8\<close>, amended. The efficiency is the optimal predicted score divided by the bandwidth
  of the optimal step, and on valid conditions this division never divides by zero. In
  doubles: each candidate is validated (\<open>bandwidth > 0\<close>) before its step is recorded, so a run
  either ends in the validation error of a candidate that is not greater than zero, or
  returns with every step bandwidth, the optimal one included, greater than zero; it never
  ends in a division by zero. In exact arithmetic every run on valid conditions returns, and
  every candidate lies between half and twice the input bandwidth and is positive.\<close>

theorem efficiency_division_guarded:
  "(valid_conditions_fp d \<longrightarrow>
      optimize_network_fp now d \<noteq> Inl (HTTPException 500 ZeroDivisionError)
      \<and> (optimize_network_fp now d = Inl (HTTPException 500 ValidationError)
         \<or> (\<exists>r. optimize_network_fp now d = Inr r
              \<and> (\<forall>s \<in> set (fp_step_by_step_optimization r).
                    fp_less (Finite 0) (fp_step_bandwidth s))
              \<and> fp_less (Finite 0) (fp_opt_bandwidth (fp_optimal_configuration r))
              \<and> py_truediv_fp (fp_opt_predicted_score (fp_optimal_configuration r))
                               (fp_opt_bandwidth (fp_optimal_configuration r))
                  = Inr (fp_network_efficiency
                           (fp_performance_metrics (fp_optimal_configuration r))))))
   \<and> (valid_conditions c \<longrightarrow>
      (\<exists>r. optimize_network now c = Inr r
         \<and> network_efficiency (performance_metrics (optimal_configuration r))
             = opt_predicted_score (optimal_configuration r)
               / opt_bandwidth (optimal_configuration r)
         \<and> py_truediv (opt_predicted_score (optimal_configuration r))
                       (opt_bandwidth (optimal_configuration r))
             = Inr (network_efficiency (performance_metrics (optimal_configuration r)))
         \<and> 0 < opt_bandwidth (optimal_configuration r)
         \<and> (\<forall>s \<in> set (step_by_step_optimization r).
               0 < step_bandwidth s
               \<and> 0.5 * bandwidth c \<le> step_bandwidth s
               \<and> step_bandwidth s \<le> 2.0 * bandwidth c)))"
proof -
  let ?cands = "linspace_fp (fp_mul (fp_bandwidth d) (Finite 0.5))
                            (fp_mul (fp_bandwidth d) (Finite 2.0)) 10"
  have dbl: "optimize_network_fp now d \<noteq> Inl (HTTPException 500 ZeroDivisionError)
      \<and> (optimize_network_fp now d = Inl (HTTPException 500 ValidationError)
         \<or> (\<exists>r. optimize_network_fp now d = Inr r
              \<and> (\<forall>s \<in> set (fp_step_by_step_optimization r).
                    fp_less (Finite 0) (fp_step_bandwidth s))
              \<and> fp_less (Finite 0) (fp_opt_bandwidth (fp_optimal_configuration r))
              \<and> py_truediv_fp (fp_opt_predicted_score (fp_optimal_configuration r))
                               (fp_opt_bandwidth (fp_optimal_configuration r))
                  = Inr (fp_network_efficiency
                           (fp_performance_metrics (fp_optimal_configuration r)))))"
    if v: "valid_conditions_fp d"
  proof (cases "\<forall>bw \<in> set ?cands. fp_less (Finite 0) bw")
    case False
    then have "\<exists>bw \<in> set ?cands. \<not> fp_less (Finite 0) bw" by blast
    then have "optimize_network_fp now d = Inl (HTTPException 500 ValidationError)"
      by (rule optimize_network_fp_invalid_candidate)
    then show ?thesis by simp
  next
    case True
    from optimize_network_fp_valid_candidates [OF v True, of now]
    obtain r m where r: "optimize_network_fp now d = Inr r"
      "fp_step_by_step_optimization r = map (step_at_fp d) ?cands"
      "m \<in> set (fp_step_by_step_optimization r)"
      "fp_opt_bandwidth (fp_optimal_configuration r) = fp_step_bandwidth m"
      "fp_opt_predicted_score (fp_optimal_configuration r) = fp_predicted_score m"
      "fp_less (Finite 0) (fp_step_bandwidth m)"
      "py_truediv_fp (fp_predicted_score m) (fp_step_bandwidth m)
         = Inr (fp_network_efficiency (fp_performance_metrics (fp_optimal_configuration r)))"
      by blast
    have all: "\<forall>s \<in> set (fp_step_by_step_optimization r).
                 fp_less (Finite 0) (fp_step_bandwidth s)"
      unfolding r(2) using True by (auto simp: step_at_fp_bandwidth)
    have ob: "fp_less (Finite 0) (fp_opt_bandwidth (fp_optimal_configuration r))"
      unfolding r(4) by (rule r(6))
    have dv: "py_truediv_fp (fp_opt_predicted_score (fp_optimal_configuration r))
                               (fp_opt_bandwidth (fp_optimal_configuration r))
                  = Inr (fp_network_efficiency
                           (fp_performance_metrics (fp_optimal_configuration r)))"
      unfolding r(4) r(5) by (rule r(7))
    have "optimize_network_fp now d \<noteq> Inl (HTTPException 500 ZeroDivisionError)"
      unfolding r(1) by simp
    then show ?thesis using r(1) all ob dv by blast
  qed
  have ex: "valid_conditions c \<longrightarrow>
      (\<exists>r. optimize_network now c = Inr r
         \<and> network_efficiency (performance_metrics (optimal_configuration r))
             = opt_predicted_score (optimal_configuration r)
               / opt_bandwidth (optimal_configuration r)
         \<and> py_truediv (opt_predicted_score (optimal_configuration r))
                       (opt_bandwidth (optimal_configuration r))
             = Inr (network_efficiency (performance_metrics (optimal_configuration r)))
         \<and> 0 < opt_bandwidth (optimal_configuration r)
         \<and> (\<forall>s \<in> set (step_by_step_optimization r).
               0 < step_bandwidth s
               \<and> 0.5 * bandwidth c \<le> step_bandwidth s
               \<and> step_bandwidth s \<le> 2.0 * bandwidth c))"
    by (rule impI) (rule network_efficiency_exact)
  show ?thesis
    apply (rule conjI [OF _ ex])
    apply (rule impI)
    apply (erule dbl)
    done
qed

text \<open>In doubles the run at \<^verbatim>\<open>1e-323\<close> returns with a positive optimal bandwidth, and the
  run at \<^verbatim>\<open>5e-324\<close> ends in the validation error; in exact arithmetic at bandwidth 4 the
  optimal step has bandwidth 6 and score 80, an efficiency of \<open>80 / 6\<close>.\<close>

theorem efficiency_division_guarded_witness:
  "valid_conditions_fp (example_tiny 2)
   \<and> (\<exists>r. optimize_network_fp ''2026-01-01T00:00:00'' (example_tiny 2) = Inr r
        \<and> fp_less (Finite 0) (fp_opt_bandwidth (fp_optimal_configuration r))
        \<and> py_truediv_fp (fp_opt_predicted_score (fp_optimal_configuration r))
                         (fp_opt_bandwidth (fp_optimal_configuration r))
            = Inr (fp_network_efficiency
                     (fp_performance_metrics (fp_optimal_configuration r))))
   \<and> valid_conditions_fp (example_tiny 1)
   \<and> optimize_network_fp ''2026-01-01T00:00:00'' (example_tiny 1)
       = Inl (HTTPException 500 ValidationError)
   \<and> valid_conditions example_mid
   \<and> (\<exists>r. optimize_network ''2026-01-01T00:00:00'' example_mid = Inr r
        \<and> opt_bandwidth (optimal_configuration r) = 6
        \<and> 0 < opt_bandwidth (optimal_configuration r)
        \<and> network_efficiency (performance_metrics (optimal_configuration r)) = 80 / 6)"
proof -
  note T2 = efficiency_division_guarded
              [of "example_tiny 2" "''2026-01-01T00:00:00''" example_mid]
  note T1 = efficiency_division_guarded
              [of "example_tiny 1" "''2026-01-01T00:00:00''" example_mid]
  have v1: "valid_conditions_fp (example_tiny 1)" by (simp add: example_tiny_valid)
  have v2: "valid_conditions_fp (example_tiny 2)" by (simp add: example_tiny_valid)
  from tiny2_run [of "''2026-01-01T00:00:00''"]
  have "optimize_network_fp ''2026-01-01T00:00:00'' (example_tiny 2)
          \<noteq> Inl (HTTPException 500 ValidationError)"
    by auto
  with T2 v2 have double: "\<exists>r. optimize_network_fp ''2026-01-01T00:00:00'' (example_tiny 2) = Inr r
        \<and> fp_less (Finite 0) (fp_opt_bandwidth (fp_optimal_configuration r))
        \<and> py_truediv_fp (fp_opt_predicted_score (fp_optimal_configuration r))
                         (fp_opt_bandwidth (fp_optimal_configuration r))
            = Inr (fp_network_efficiency
                     (fp_performance_metrics (fp_optimal_configuration r)))"
    by blast
  have "\<not> (\<exists>r. optimize_network_fp ''2026-01-01T00:00:00'' (example_tiny 1) = Inr r)"
    using tiny1_run [of "''2026-01-01T00:00:00''"] by simp
  with T1 v1 have fail: "optimize_network_fp ''2026-01-01T00:00:00'' (example_tiny 1)
       = Inl (HTTPException 500 ValidationError)"
    by blast
  from T2 example_mid_valid
  obtain r where r: "optimize_network ''2026-01-01T00:00:00'' example_mid = Inr r"
    "network_efficiency (performance_metrics (optimal_configuration r))
         = opt_predicted_score (optimal_configuration r) / opt_bandwidth (optimal_configuration r)"
    "0 < opt_bandwidth (optimal_configuration r)"
    by blast
  from example_mid_optimum [of "''2026-01-01T00:00:00''"] r(1)
  have ex: "opt_bandwidth (optimal_configuration r) = 6"
     "opt_predicted_score (optimal_configuration r) = 80"
    by auto
  have "network_efficiency (performance_metrics (optimal_configuration r)) = 80 / 6"
    using r(2) unfolding ex .
  then have exact: "\<exists>r. optimize_network ''2026-01-01T00:00:00'' example_mid = Inr r
        \<and> opt_bandwidth (optimal_configuration r) = 6
        \<and> 0 < opt_bandwidth (optimal_configuration r)
        \<and> network_efficiency (performance_metrics (optimal_configuration r)) = 80 / 6"
    using r(1,3) ex(1) by blast
  show ?thesis using v2 double v1 fail example_mid_valid exact by blast
qed

end
